theory Spec2Isabelle
  imports Main "HOL-Library.Sublist" "HOL-Library.AList"
begin

section \<open>Python strings and POSIX paths\<close>

text \<open>
  A Python \<open>str\<close> is modelled as a \<^typ>\<open>string\<close>: the list of its code points, each
  in the range 0..255 (the range of the \<open>latin-1\<close> fallback encoding of \<open>_read_file\<close>).
  The functions below are the string methods and the \<open>os.path\<close> functions (POSIX
  flavour, \<open>os.sep = '/'\<close>) that the repository calls.
\<close>

text \<open>\<open>c.isspace()\<close> for a code point below 256.\<close>

definition isspace :: "char \<Rightarrow> bool" where
  "isspace c = (of_char c \<in> {9, 10, 11, 12, 13, 28, 29, 30, 31, 32, 133, 160 :: nat})"

text \<open>\<open>s.strip()\<close>: leading and trailing whitespace removed.\<close>

definition py_strip :: "string \<Rightarrow> string" where
  "py_strip s = rev (dropWhile isspace (rev (dropWhile isspace s)))"

text \<open>\<open>s.rstrip(c)\<close> and \<open>s.lstrip(c)\<close> for a one-character argument.\<close>

definition py_rstrip_char :: "char \<Rightarrow> string \<Rightarrow> string" where
  "py_rstrip_char c s = rev (dropWhile (\<lambda>x. x = c) (rev s))"

definition py_lstrip_char :: "char \<Rightarrow> string \<Rightarrow> string" where
  "py_lstrip_char c s = dropWhile (\<lambda>x. x = c) s"

text \<open>\<open>s.split(sep)\<close> for a one-character separator: never the empty list.\<close>

fun py_split :: "char \<Rightarrow> string \<Rightarrow> string list" where
  "py_split sep [] = [[]]"
| "py_split sep (c # cs) =
     (if c = sep then [] # py_split sep cs
      else (case py_split sep cs of
              [] \<Rightarrow> [[c]]
            | w # ws \<Rightarrow> (c # w) # ws))"

text \<open>\<open>sep.join(parts)\<close>.\<close>

fun py_join :: "string \<Rightarrow> string list \<Rightarrow> string" where
  "py_join sep [] = []"
| "py_join sep [p] = p"
| "py_join sep (p # q # ps) = p @ sep @ py_join sep (q # ps)"

text \<open>\<open>s.startswith(p)\<close>, \<open>s.startswith((p1, p2, ...))\<close>, \<open>s.endswith(p)\<close> and
  the substring test \<open>p in s\<close>.\<close>

definition startswith :: "string \<Rightarrow> string \<Rightarrow> bool" where
  "startswith s p = prefix p s"

definition startswith_any :: "string \<Rightarrow> string list \<Rightarrow> bool" where
  "startswith_any s ps = list_ex (\<lambda>p. startswith s p) ps"

definition endswith :: "string \<Rightarrow> string \<Rightarrow> bool" where
  "endswith s p = suffix p s"

definition py_in :: "string \<Rightarrow> string \<Rightarrow> bool" where
  "py_in p s = sublist p s"

text \<open>\<open>s.replace(old, new)\<close> for a non-empty \<open>old\<close>: the occurrences are replaced
  from the left, without overlap.\<close>

fun py_replace :: "string \<Rightarrow> string \<Rightarrow> string \<Rightarrow> string" where
  "py_replace old new [] = []"
| "py_replace old new (c # cs) =
     (if old \<noteq> [] \<and> prefix old (c # cs)
      then new @ py_replace old new (drop (length old - 1) cs)
      else c # py_replace old new cs)"

text \<open>\<open>os.path.basename\<close>, \<open>os.path.dirname\<close> and the two-argument
  \<open>os.path.join\<close> of \<open>posixpath\<close>. \<open>rfind_slash p\<close> is \<open>p.rfind('/') + 1\<close>.\<close>

definition rfind_slash :: "string \<Rightarrow> nat" where
  "rfind_slash p = length p - length (takeWhile (\<lambda>c. c \<noteq> CHR ''/'') (rev p))"

definition basename :: "string \<Rightarrow> string" where
  "basename p = drop (rfind_slash p) p"

definition dirname :: "string \<Rightarrow> string" where
  "dirname p =
     (let head = take (rfind_slash p) p
      in if head \<noteq> [] \<and> head \<noteq> replicate (length head) CHR ''/''
         then py_rstrip_char CHR ''/'' head else head)"

definition path_join :: "string \<Rightarrow> string \<Rightarrow> string" where
  "path_join a b =
     (if startswith b ''/'' then b
      else if a = [] \<or> endswith a ''/'' then a @ b
      else a @ ''/'' @ b)"

section \<open>The source model (parsers/base.py)\<close>

datatype EntityType = FUNCTION | CLASS | METHOD | VARIABLE | IMPORT

record Comment =
  comment_text :: string
  comment_line :: int
  is_docstring :: bool
  parent_entity :: "string option"

record Import =
  module :: string
  names :: "string list"
  import_line :: int
  is_star_import :: bool
  import_alias :: "string option"

record Definition =
  name :: string
  entity_type :: EntityType
  line_start :: int
  line_end :: int
  parent :: "string option"
  calls :: "string list"
  nesting_depth :: int
  docstring :: "string option"
  parameters :: "string list"

record ParsedFile =
  file_path :: string
  language :: string
  pf_imports :: "Import list"
  definitions :: "Definition list"
  comments :: "Comment list"
  lines_of_code :: int
  raw_content :: string

text \<open>\<open>BaseParser._count_lines\<close>.\<close>

definition count_lines :: "string \<Rightarrow> int" where
  "count_lines content =
     (let lines = py_split (CHR 0x0A) content
      in int (length (filter (\<lambda>line. py_strip line \<noteq> [] \<and>
                                  \<not> startswith_any (py_strip line) [''#'', ''//'']) lines)))"

section \<open>Reading a file (BaseParser._read_file)\<close>

text \<open>
  The exceptions the modelled code can meet. \<open>SyntaxError\<close> stands for the class
  and its subclasses, \<open>OSError\<close> likewise (a missing file, a directory, no permission).
\<close>

datatype py_exception =
  OSError | UnicodeDecodeError | SyntaxError | ValueError | TypeError | AttributeError
  | RecursionError

datatype encoding = UTF8 | LATIN1

text \<open>
  The file system is a parameter: \<open>fs path enc\<close> is what
  \<open>with open(path, 'r', encoding=enc) as f: return f.read()\<close> does, the text read or the
  exception raised.
\<close>

type_synonym file_system = "string \<Rightarrow> encoding \<Rightarrow> py_exception + string"

definition read_file :: "file_system \<Rightarrow> string \<Rightarrow> py_exception + string" where
  "read_file fs path =
     (if fs path UTF8 = Inl UnicodeDecodeError then fs path LATIN1 else fs path UTF8)"

section \<open>The Python parser (parsers/python_parser.py)\<close>

text \<open>
  The tree \<open>ast.parse\<close> returns, as far as the parser reads it. A node has its class
  (with the attributes the parser reads), \<open>lineno\<close>, \<open>end_lineno\<close> and its child nodes
  in the order of \<open>ast.iter_child_nodes\<close>. The first child of a \<open>Call\<close> is its
  \<open>func\<close>, the first child of an \<open>Attribute\<close> is its \<open>value\<close>. An alias is its
  \<open>name\<close> and \<open>asname\<close>. The string option of a module, function or class is what
  \<open>ast.get_docstring\<close> returns for it; the string list of a function is
  \<open>[arg.arg for arg in node.args.args]\<close>. \<open>ast_Constant\<close> is apart because
  \<open>ast.NodeVisitor\<close> has a method for it. Every other class the parser does not name
  is \<open>ast_Other\<close>.
\<close>

type_synonym py_alias = "string \<times> string option"

datatype py_kind =
    ast_Module "string option"
  | ast_Import "py_alias list"
  | ast_ImportFrom "string option" "py_alias list"
  | ast_FunctionDef string "string list" "string option"
  | ast_AsyncFunctionDef string "string list" "string option"
  | ast_ClassDef string "string option"
  | ast_If | ast_For | ast_While | ast_With | ast_Try
  | ast_Call
  | ast_Name string
  | ast_Attribute string
  | ast_Constant
  | ast_Other

datatype py_ast = Node (kind: py_kind) (lineno: int) (end_lineno: "int option") (children: "py_ast list")

text \<open>The truth value of an optional string: \<open>None\<close> and \<open>''\<close> are false.\<close>

fun truthy :: "string option \<Rightarrow> bool" where
  "truthy None = False"
| "truthy (Some s) = (s \<noteq> [])"

text \<open>\<open>ast.walk\<close>: breadth first, from a queue of nodes.\<close>

function walk_queue :: "py_ast list \<Rightarrow> py_ast list" where
  "walk_queue [] = []"
| "walk_queue (n # todo) = n # walk_queue (todo @ children n)"
  by pat_completeness auto
termination
proof (relation "measure (\<lambda>q. sum_list (map size q))")
  show "wf (measure (\<lambda>q. sum_list (map size q)))" by simp
next
  fix n :: py_ast and todo :: "py_ast list"
  have "sum_list (map size (children n)) < size n"
  proof (cases n)
    case (Node k l e cs)
    have "sum_list (map size cs) \<le> size_list size cs"
      by (induction cs) auto
    with Node show ?thesis by simp
  qed
  then show "(todo @ children n, n # todo) \<in> measure (\<lambda>q. sum_list (map size q))"
    by simp
qed

definition walk :: "py_ast \<Rightarrow> py_ast list" where
  "walk node = walk_queue [node]"

text \<open>\<open>PythonParser._extract_imports\<close>.\<close>

definition imports_of_node :: "py_ast \<Rightarrow> Import list" where
  "imports_of_node node =
     (case kind node of
        ast_Import aliases \<Rightarrow>
          map (\<lambda>a. \<lparr>module = fst a, names = [fst a], import_line = lineno node,
                     is_star_import = False, import_alias = snd a\<rparr>) aliases
      | ast_ImportFrom m aliases \<Rightarrow>
          (if truthy m
           then [\<lparr>module = the m, names = map fst aliases, import_line = lineno node,
                   is_star_import = (''*'' \<in> set (map fst aliases)), import_alias = None\<rparr>]
           else [])
      | _ \<Rightarrow> [])"

definition extract_imports :: "py_ast \<Rightarrow> Import list" where
  "extract_imports tree = concat (map imports_of_node (walk tree))"

text \<open>
  Python bounds the depth of nested calls: a call that would put one frame more on the
  stack than the recursion limit allows raises \<open>RecursionError\<close>. The visitor and
  \<open>calculate_depth\<close> call themselves once for every level of the tree, so the depth
  they reach grows with the input. \<open>limit\<close> is the number of frames the interpreter
  allows above the frame of \<open>_extract_definitions\<close>, and \<open>py_call limit d body\<close> is a
  call whose frame is the \<open>d\<close>-th of them. The frames counted are those of the methods
  of the visitor (\<open>visit\<close>, \<open>generic_visit\<close> and \<open>visit_Constant\<close> of
  \<open>ast.NodeVisitor\<close> among them) and of \<open>calculate_depth\<close>. The helpers of the
  library that these call (\<open>ast.get_docstring\<close>, \<open>ast.walk\<close>,
  \<open>ast.iter_child_nodes\<close>, \<open>ast.iter_fields\<close>) take a bounded number of frames
  whatever the tree; \<open>limit\<close> is what is left when these are set aside.
\<close>

definition py_call :: "nat \<Rightarrow> nat \<Rightarrow> py_exception + 'a \<Rightarrow> py_exception + 'a" where
  "py_call limit d body = (if limit < d then Inl RecursionError else body)"

text \<open>The results of a loop that stops at the first exception.\<close>

fun collect :: "('e + 'a) list \<Rightarrow> 'e + 'a list" where
  "collect [] = Inr []"
| "collect (Inl e # rs) = Inl e"
| "collect (Inr x # rs) = (case collect rs of Inl e \<Rightarrow> Inl e | Inr xs \<Rightarrow> Inr (x # xs))"

text \<open>\<open>DefinitionVisitor._extract_calls\<close>.\<close>

definition calls_of_node :: "py_ast \<Rightarrow> string list" where
  "calls_of_node child =
     (case kind child of
        ast_Call \<Rightarrow>
          (case children child of
             [] \<Rightarrow> []
           | func # _ \<Rightarrow>
               (case kind func of
                  ast_Name ident \<Rightarrow> [ident]
                | ast_Attribute attr \<Rightarrow>
                    (case children func of
                       [] \<Rightarrow> [attr]
                     | v # _ \<Rightarrow>
                         (case kind v of
                            ast_Name ident \<Rightarrow> [ident @ ''.'' @ attr]
                          | _ \<Rightarrow> [attr]))
                | _ \<Rightarrow> []))
      | _ \<Rightarrow> [])"

definition extract_calls :: "nat \<Rightarrow> nat \<Rightarrow> py_ast \<Rightarrow> py_exception + string list" where
  "extract_calls limit d node = py_call limit d (Inr (concat (map calls_of_node (walk node))))"

text \<open>\<open>DefinitionVisitor._calculate_nesting\<close>: \<open>calculate_depth limit d n c\<close> is the
  call \<open>calculate_depth(n, c)\<close> in the \<open>d\<close>-th frame; it returns the largest
  \<open>current_depth\<close> met in the calls below it.\<close>

definition increases_nesting :: "py_kind \<Rightarrow> bool" where
  "increases_nesting k = (k \<in> {ast_If, ast_For, ast_While, ast_With, ast_Try})"

fun calculate_depth :: "nat \<Rightarrow> nat \<Rightarrow> py_ast \<Rightarrow> int \<Rightarrow> py_exception + int" where
  "calculate_depth limit d (Node k l e cs) current_depth =
     py_call limit d
       (let inner = (if increases_nesting k then current_depth + 1 else current_depth)
        in case collect (map (\<lambda>c. calculate_depth limit (d + 1) c inner) cs) of
             Inl ex \<Rightarrow> Inl ex
           | Inr ms \<Rightarrow> Inr (fold max ms current_depth))"

definition calculate_nesting :: "nat \<Rightarrow> nat \<Rightarrow> py_ast \<Rightarrow> py_exception + int" where
  "calculate_nesting limit d node =
     py_call limit d
       (case calculate_depth limit (d + 1) node 0 of
          Inl ex \<Rightarrow> Inl ex
        | Inr m \<Rightarrow> Inr (max 0 m))"

text \<open>\<open>node.end_lineno or node.lineno\<close>.\<close>

definition end_line :: "py_ast \<Rightarrow> int" where
  "end_line node =
     (case end_lineno node of
        None \<Rightarrow> lineno node
      | Some e \<Rightarrow> if e = 0 then lineno node else e)"

text \<open>
  \<open>DefinitionVisitor\<close>. \<open>visit limit d current_class node\<close> is the call
  \<open>self.visit(node)\<close> in the \<open>d\<close>-th frame: the list of definitions it appends, or the
  exception it raises. \<open>visit\<close> calls the method of the node's class, and
  \<open>generic_visit\<close> calls \<open>visit\<close> for every child. A function's body is not visited.
\<close>

definition visit_FunctionDef ::
  "nat \<Rightarrow> nat \<Rightarrow> string option \<Rightarrow> py_ast \<Rightarrow> string \<Rightarrow> string list \<Rightarrow> string option \<Rightarrow>
   py_exception + Definition list" where
  "visit_FunctionDef limit d current_class node nm params doc =
     py_call limit d
       (case extract_calls limit (d + 1) node of
          Inl ex \<Rightarrow> Inl ex
        | Inr cl \<Rightarrow>
            (case calculate_nesting limit (d + 1) node of
               Inl ex \<Rightarrow> Inl ex
             | Inr nesting \<Rightarrow>
                 Inr [\<lparr>name = nm,
                       entity_type = (if truthy current_class then METHOD else FUNCTION),
                       line_start = lineno node, line_end = end_line node,
                       parent = current_class, calls = cl,
                       nesting_depth = nesting, docstring = doc, parameters = params\<rparr>]))"

fun visit :: "nat \<Rightarrow> nat \<Rightarrow> string option \<Rightarrow> py_ast \<Rightarrow> py_exception + Definition list" where
  "visit limit d current_class (Node k l e cs) =
     py_call limit d
       (case k of
          ast_ClassDef nm doc \<Rightarrow>
            py_call limit (d + 1)
              (py_call limit (d + 2)
                 (case collect (map (visit limit (d + 3) (Some nm)) cs) of
                    Inl ex \<Rightarrow> Inl ex
                  | Inr found \<Rightarrow>
                      Inr (\<lparr>name = nm, entity_type = CLASS, line_start = l,
                            line_end = end_line (Node k l e cs), parent = current_class,
                            calls = [], nesting_depth = 0, docstring = doc,
                            parameters = []\<rparr>
                           # concat found)))
        | ast_FunctionDef nm params doc \<Rightarrow>
            visit_FunctionDef limit (d + 1) current_class (Node k l e cs) nm params doc
        | ast_AsyncFunctionDef nm params doc \<Rightarrow>
            py_call limit (d + 1)
              (visit_FunctionDef limit (d + 2) current_class (Node k l e cs) nm params doc)
        | ast_Constant \<Rightarrow>
            py_call limit (d + 1)
              (py_call limit (d + 2)
                 (case collect (map (visit limit (d + 3) current_class) cs) of
                    Inl ex \<Rightarrow> Inl ex
                  | Inr found \<Rightarrow> Inr (concat found)))
        | _ \<Rightarrow>
            py_call limit (d + 1)
              (case collect (map (visit limit (d + 2) current_class) cs) of
                 Inl ex \<Rightarrow> Inl ex
               | Inr found \<Rightarrow> Inr (concat found)))"

definition extract_definitions :: "nat \<Rightarrow> py_ast \<Rightarrow> string \<Rightarrow> py_exception + Definition list" where
  "extract_definitions limit tree content = visit limit 1 None tree"

text \<open>\<open>PythonParser._extract_comments\<close>.\<close>

definition line_comments :: "string \<Rightarrow> Comment list" where
  "line_comments content =
     concat (map (\<lambda>(i, line).
                    if startswith (py_strip line) ''#''
                    then [\<lparr>comment_text = py_strip (drop 1 (py_strip line)),
                           comment_line = int i + 1, is_docstring = False,
                           parent_entity = None\<rparr>]
                    else [])
                 (enumerate 0 (py_split (CHR 0x0A) content)))"

definition docstring_of_node :: "py_ast \<Rightarrow> Comment list" where
  "docstring_of_node node =
     (case kind node of
        ast_FunctionDef nm params doc \<Rightarrow>
          (if truthy doc
           then [\<lparr>comment_text = the doc, comment_line = lineno node, is_docstring = True,
                   parent_entity = Some nm\<rparr>]
           else [])
      | ast_ClassDef nm doc \<Rightarrow>
          (if truthy doc
           then [\<lparr>comment_text = the doc, comment_line = lineno node, is_docstring = True,
                   parent_entity = Some nm\<rparr>]
           else [])
      | ast_Module doc \<Rightarrow>
          (if truthy doc
           then [\<lparr>comment_text = the doc, comment_line = 1, is_docstring = True,
                   parent_entity = None\<rparr>]
           else [])
      | _ \<Rightarrow> [])"

definition extract_comments :: "string \<Rightarrow> py_ast \<Rightarrow> Comment list" where
  "extract_comments content tree =
     line_comments content @ concat (map docstring_of_node (walk tree))"

text \<open>
  \<open>PythonParser.parse_file\<close>. \<open>ast_parse\<close> is \<open>ast.parse\<close> of the standard
  library: the tree of a text, or the exception it raises. \<open>except_SyntaxError\<close> is
  the handler of the \<open>try\<close> block: a syntax error ends the block with what was
  assigned so far, and any other exception leaves \<open>parse_file\<close>.
\<close>

definition except_SyntaxError :: "py_exception \<Rightarrow> ParsedFile \<Rightarrow> py_exception + ParsedFile" where
  "except_SyntaxError e parsed = (if e = SyntaxError then Inr parsed else Inl e)"

definition PythonParser_parse_file ::
  "nat \<Rightarrow> (string \<Rightarrow> py_exception + py_ast) \<Rightarrow> file_system \<Rightarrow> string \<Rightarrow>
   py_exception + ParsedFile" where
  "PythonParser_parse_file limit ast_parse fs path =
     (case read_file fs path of
        Inl e \<Rightarrow> Inl e
      | Inr content \<Rightarrow>
          (let parsed = \<lparr>file_path = path, language = ''python'', pf_imports = [],
                         definitions = [], comments = [],
                         lines_of_code = count_lines content, raw_content = content\<rparr>
           in case ast_parse content of
                Inl e \<Rightarrow> except_SyntaxError e parsed
              | Inr tree \<Rightarrow>
                  (let p1 = parsed\<lparr>pf_imports := extract_imports tree\<rparr>
                   in case extract_definitions limit tree content of
                        Inl e \<Rightarrow> except_SyntaxError e p1
                      | Inr found \<Rightarrow>
                          Inr (p1\<lparr>definitions := found,
                                  comments := extract_comments content tree\<rparr>))))"

section \<open>Directed graphs (the part of networkx.DiGraph the code uses)\<close>

text \<open>
  A dictionary that is iterated is an association list in insertion order; assigning to
  a key it holds keeps the key's place (\<^const>\<open>AList.update\<close>). A graph is its node
  dictionary and its edge dictionary, each entry with its attribute dictionary.
\<close>

datatype attr = AStr string | AInt int | ABool bool | ANone

type_synonym attrs = "(string \<times> attr) list"

record digraph =
  nodes :: "(string \<times> attrs) list"
  edges :: "((string \<times> string) \<times> attrs) list"

text \<open>\<open>d.update(new)\<close>.\<close>

definition dict_update :: "('k \<times> 'v) list \<Rightarrow> ('k \<times> 'v) list \<Rightarrow> ('k \<times> 'v) list" where
  "dict_update d new = fold (\<lambda>(k, v). AList.update k v) new d"

definition nx_empty :: digraph where
  "nx_empty = \<lparr>nodes = [], edges = []\<rparr>"

definition nx_clear :: "digraph \<Rightarrow> digraph" where
  "nx_clear g = nx_empty"

definition nx_has_node :: "digraph \<Rightarrow> string \<Rightarrow> bool" where
  "nx_has_node g n = (n \<in> set (map fst (nodes g)))"

definition nx_has_edge :: "digraph \<Rightarrow> string \<Rightarrow> string \<Rightarrow> bool" where
  "nx_has_edge g u v = ((u, v) \<in> set (map fst (edges g)))"

definition nx_add_node :: "string \<Rightarrow> attrs \<Rightarrow> digraph \<Rightarrow> digraph" where
  "nx_add_node n a g =
     (case map_of (nodes g) n of
        None \<Rightarrow> g\<lparr>nodes := nodes g @ [(n, dict_update [] a)]\<rparr>
      | Some old \<Rightarrow> g\<lparr>nodes := AList.update n (dict_update old a) (nodes g)\<rparr>)"

definition nx_ensure_node :: "string \<Rightarrow> digraph \<Rightarrow> digraph" where
  "nx_ensure_node n g = (if nx_has_node g n then g else g\<lparr>nodes := nodes g @ [(n, [])]\<rparr>)"

definition nx_add_edge :: "string \<Rightarrow> string \<Rightarrow> attrs \<Rightarrow> digraph \<Rightarrow> digraph" where
  "nx_add_edge u v a g =
     (let g' = nx_ensure_node v (nx_ensure_node u g)
      in case map_of (edges g') (u, v) of
           None \<Rightarrow> g'\<lparr>edges := edges g' @ [((u, v), dict_update [] a)]\<rparr>
         | Some old \<Rightarrow> g'\<lparr>edges := AList.update (u, v) (dict_update old a) (edges g')\<rparr>)"

text \<open>\<open>g.in_degree(n)\<close>: the number of predecessors of \<open>n\<close>.\<close>

definition nx_in_degree :: "digraph \<Rightarrow> string \<Rightarrow> nat" where
  "nx_in_degree g n = length (remdups (map fst (filter (\<lambda>e. snd e = n) (map fst (edges g)))))"

section \<open>The graph builder (graph/builder.py)\<close>

subsection \<open>Path(file_path).relative_to(root_dir)\<close>

text \<open>
  \<open>pathlib\<close> on POSIX reads a path as a root (\<open>''\<close>, \<open>'/'\<close>, or \<open>'//'\<close> for exactly
  two leading slashes) and the names between the slashes, without the empty ones and
  without \<open>'.'\<close>. \<open>abs_parts\<close> is the list \<open>relative_to\<close> compares.
\<close>

definition path_root :: "string \<Rightarrow> string" where
  "path_root p =
     (if startswith p ''/''
      then (if length p - length (py_lstrip_char CHR ''/'' p) = 2 then ''//'' else ''/'')
      else [])"

definition path_names :: "string \<Rightarrow> string list" where
  "path_names p =
     filter (\<lambda>x. x \<noteq> [] \<and> x \<noteq> ''.'') (py_split CHR ''/'' (py_lstrip_char CHR ''/'' p))"

definition abs_parts :: "string \<Rightarrow> string list" where
  "abs_parts p = (if path_root p \<noteq> [] then [[], path_root p] else []) @ path_names p"

text \<open>\<open>GraphBuilder._get_relative_path\<close>: the \<open>ValueError\<close> of \<open>relative_to\<close> gives
  the base name.\<close>

definition get_relative_path :: "string \<Rightarrow> string \<Rightarrow> string" where
  "get_relative_path root file =
     (let ps = abs_parts file; to = abs_parts root; n = length to
      in if (if n = 0 then path_root file \<noteq> [] else take n ps \<noteq> to)
         then basename file
         else (if drop n ps = [] then ''.'' else py_join ''/'' (drop n ps)))"

text \<open>\<open>GraphBuilder._get_cluster\<close>.\<close>

definition get_cluster :: "string \<Rightarrow> string" where
  "get_cluster rel_path = (if dirname rel_path \<noteq> [] then dirname rel_path else ''.'')"

subsection \<open>The module index\<close>

text \<open>The first of the extensions that ends the path is cut off.\<close>

fun strip_extension :: "string list \<Rightarrow> string \<Rightarrow> string" where
  "strip_extension [] module_path = module_path"
| "strip_extension (ext # exts) module_path =
     (if endswith module_path ext
      then take (length module_path - length ext) module_path
      else strip_extension exts module_path)"

definition set_default :: "'k \<Rightarrow> 'v \<Rightarrow> ('k \<times> 'v) list \<Rightarrow> ('k \<times> 'v) list" where
  "set_default k v d = (if k \<in> set (map fst d) then d else AList.update k v d)"

definition map_module :: "string \<Rightarrow> (string \<times> string) list \<Rightarrow> ParsedFile \<Rightarrow> (string \<times> string) list" where
  "map_module root module_map pf =
     (let rel_path = get_relative_path root (file_path pf)
      in if language pf = ''python''
         then (let module_parts = py_split CHR ''/'' (py_replace ''.py'' [] rel_path);
                   module_name = py_join ''.'' module_parts;
                   m1 = AList.update module_name rel_path module_map;
                   filename = py_replace ''.py'' [] (basename rel_path)
               in set_default filename rel_path m1)
         else (let module_path = strip_extension [''.js'', ''.jsx'', ''.ts'', ''.tsx''] rel_path;
                   m1 = AList.update module_path rel_path module_map;
                   m2 = AList.update (''./'' @ module_path) rel_path m1;
                   filename = basename module_path
               in set_default filename rel_path m2))"

definition create_module_mapping :: "string \<Rightarrow> ParsedFile list \<Rightarrow> (string \<times> string) list" where
  "create_module_mapping root parsed_files = foldl (map_module root) [] parsed_files"

subsection \<open>Import resolution\<close>

definition walk_part :: "string \<Rightarrow> string \<Rightarrow> string" where
  "walk_part current_dir part =
     (if part = ''.'' then current_dir
      else if part = ''..'' then dirname current_dir
      else path_join current_dir part)"

fun first_candidate :: "(string \<times> string) list \<Rightarrow> string \<Rightarrow> string list \<Rightarrow> string list" where
  "first_candidate module_map current_dir [] = []"
| "first_candidate module_map current_dir (ext # exts) =
     (case map_of module_map (current_dir @ ext) of
        Some target \<Rightarrow> [target]
      | None \<Rightarrow> first_candidate module_map current_dir exts)"

definition resolve_import ::
  "string \<Rightarrow> string \<Rightarrow> string \<Rightarrow> (string \<times> string) list \<Rightarrow> ParsedFile list \<Rightarrow> string list" where
  "resolve_import root modul source_file module_map parsed_files =
     (case map_of module_map modul of
        Some target \<Rightarrow> [target]
      | None \<Rightarrow>
          if startswith modul ''.''
          then (let source_dir = dirname (get_relative_path root source_file);
                    parts = py_split CHR ''/'' modul;
                    current_dir = foldl walk_part source_dir parts
                in first_candidate module_map current_dir
                     [[], ''.py'', ''.js'', ''.jsx'', ''.ts'', ''.tsx'', ''/index.js'', ''/index.ts''])
          else map (\<lambda>pf. get_relative_path root (file_path pf))
                 (filter (\<lambda>pf. py_in (py_replace ''.'' ''/'' modul)
                                  (get_relative_path root (file_path pf)))
                    parsed_files))"

subsection \<open>The file graph\<close>

definition file_node_attrs :: "string \<Rightarrow> ParsedFile \<Rightarrow> attrs" where
  "file_node_attrs rel_path pf =
     [(''file_path'', AStr (file_path pf)),
      (''language'', AStr (language pf)),
      (''lines_of_code'', AInt (lines_of_code pf)),
      (''cluster'', AStr (get_cluster rel_path)),
      (''num_definitions'', AInt (int (length (definitions pf)))),
      (''num_imports'', AInt (int (length (pf_imports pf))))]"

definition add_file_node :: "string \<Rightarrow> digraph \<Rightarrow> ParsedFile \<Rightarrow> digraph" where
  "add_file_node root g pf =
     (let rel_path = get_relative_path root (file_path pf)
      in nx_add_node rel_path (file_node_attrs rel_path pf) g)"

definition add_target_edge :: "string \<Rightarrow> digraph \<Rightarrow> string \<Rightarrow> digraph" where
  "add_target_edge source g target =
     (if nx_has_node g target
      then nx_add_edge source target [(''import_type'', AStr ''direct'')] g
      else g)"

definition add_import_edges ::
  "string \<Rightarrow> (string \<times> string) list \<Rightarrow> ParsedFile list \<Rightarrow> ParsedFile \<Rightarrow> digraph \<Rightarrow> Import \<Rightarrow> digraph" where
  "add_import_edges root module_to_file parsed_files pf g imp =
     foldl (add_target_edge (get_relative_path root (file_path pf))) g
       (resolve_import root (module imp) (file_path pf) module_to_file parsed_files)"

definition add_file_edges ::
  "string \<Rightarrow> (string \<times> string) list \<Rightarrow> ParsedFile list \<Rightarrow> digraph \<Rightarrow> ParsedFile \<Rightarrow> digraph" where
  "add_file_edges root module_to_file parsed_files g pf =
     foldl (add_import_edges root module_to_file parsed_files pf) g (pf_imports pf)"

text \<open>What \<open>build_file_graph\<close> does to the graph object it works on.\<close>

definition fill_file_graph :: "string \<Rightarrow> ParsedFile list \<Rightarrow> digraph \<Rightarrow> digraph" where
  "fill_file_graph root parsed_files g0 =
     (let g1 = nx_clear g0;
          module_to_file = create_module_mapping root parsed_files;
          g2 = foldl (add_file_node root) g1 parsed_files
      in foldl (add_file_edges root module_to_file parsed_files) g2 parsed_files)"

subsection \<open>The entity graph\<close>

fun type_value :: "EntityType \<Rightarrow> string" where
  "type_value FUNCTION = ''function''"
| "type_value CLASS = ''class''"
| "type_value METHOD = ''method''"
| "type_value VARIABLE = ''variable''"
| "type_value IMPORT = ''import''"

text \<open>The id of a definition: \<open>f"{rel_path}::{defn.parent}.{defn.name}"\<close> when it has a
  parent, \<open>f"{rel_path}::{defn.name}"\<close> otherwise.\<close>

definition entity_id :: "string \<Rightarrow> Definition \<Rightarrow> string" where
  "entity_id rel_path defn =
     (if truthy (parent defn)
      then rel_path @ ''::'' @ the (parent defn) @ ''.'' @ name defn
      else rel_path @ ''::'' @ name defn)"

type_synonym entity_map = "(string \<times> (string \<times> Definition)) list"

definition entity_node_attrs :: "string \<Rightarrow> Definition \<Rightarrow> attrs" where
  "entity_node_attrs rel_path defn =
     [(''name'', AStr (name defn)),
      (''type'', AStr (type_value (entity_type defn))),
      (''file'', AStr rel_path),
      (''cluster'', AStr rel_path),
      (''line_start'', AInt (line_start defn)),
      (''line_end'', AInt (line_end defn)),
      (''nesting_depth'', AInt (nesting_depth defn)),
      (''parent'', (case parent defn of None \<Rightarrow> ANone | Some p \<Rightarrow> AStr p))]"

definition add_entity_node :: "string \<Rightarrow> entity_map \<times> digraph \<Rightarrow> Definition \<Rightarrow> entity_map \<times> digraph" where
  "add_entity_node rel_path st defn =
     (let m1 = AList.update (name defn) (rel_path, defn) (fst st);
          m2 = (if truthy (parent defn)
                then AList.update (the (parent defn) @ ''.'' @ name defn) (rel_path, defn) m1
                else m1)
      in (m2, nx_add_node (entity_id rel_path defn) (entity_node_attrs rel_path defn) (snd st)))"

definition add_entity_nodes :: "string \<Rightarrow> entity_map \<times> digraph \<Rightarrow> ParsedFile \<Rightarrow> entity_map \<times> digraph" where
  "add_entity_nodes root st pf =
     foldl (add_entity_node (get_relative_path root (file_path pf))) st (definitions pf)"

definition add_call_edge :: "entity_map \<Rightarrow> string \<Rightarrow> digraph \<Rightarrow> string \<Rightarrow> digraph" where
  "add_call_edge em source_id g call =
     (case map_of em call of
        None \<Rightarrow> g
      | Some (target_file, target_defn) \<Rightarrow>
          (let target_id = entity_id target_file target_defn
           in if nx_has_node g target_id \<and> source_id \<noteq> target_id
              then nx_add_edge source_id target_id [(''call_type'', AStr ''direct'')] g
              else g))"

definition add_definition_edges :: "entity_map \<Rightarrow> string \<Rightarrow> digraph \<Rightarrow> Definition \<Rightarrow> digraph" where
  "add_definition_edges em rel_path g defn =
     foldl (add_call_edge em (entity_id rel_path defn)) g (calls defn)"

definition add_entity_edges :: "string \<Rightarrow> entity_map \<Rightarrow> digraph \<Rightarrow> ParsedFile \<Rightarrow> digraph" where
  "add_entity_edges root em g pf =
     foldl (add_definition_edges em (get_relative_path root (file_path pf))) g (definitions pf)"

text \<open>What \<open>build_entity_graph\<close> does to the graph object it works on.\<close>

definition fill_entity_graph :: "string \<Rightarrow> ParsedFile list \<Rightarrow> digraph \<Rightarrow> digraph" where
  "fill_entity_graph root parsed_files g0 =
     (let g1 = nx_clear g0;
          st = foldl (add_entity_nodes root) ([], g1) parsed_files
      in foldl (add_entity_edges root (fst st)) (snd st) parsed_files)"

subsection \<open>The builder and its two graph objects\<close>

text \<open>
  A \<open>GraphBuilder\<close> holds references to two graph objects, made once by
  \<open>__init__\<close>. The heap maps a reference to the object's present state; a caller that
  keeps a returned graph keeps the reference.
\<close>

record heap =
  objects :: "nat \<Rightarrow> digraph"
  next_free :: nat

record GraphBuilder =
  root_dir :: string
  file_graph :: nat
  entity_graph :: nat

definition new_DiGraph :: "heap \<Rightarrow> nat \<times> heap" where
  "new_DiGraph h =
     (next_free h, \<lparr>objects = (objects h)(next_free h := nx_empty), next_free = Suc (next_free h)\<rparr>)"

definition GraphBuilder_init :: "string \<Rightarrow> heap \<Rightarrow> GraphBuilder \<times> heap" where
  "GraphBuilder_init root h =
     (let (r1, h1) = new_DiGraph h;
          (r2, h2) = new_DiGraph h1
      in (\<lparr>root_dir = root, file_graph = r1, entity_graph = r2\<rparr>, h2))"

definition build_file_graph :: "GraphBuilder \<Rightarrow> ParsedFile list \<Rightarrow> heap \<Rightarrow> nat \<times> heap" where
  "build_file_graph self parsed_files h =
     (file_graph self,
      h\<lparr>objects := (objects h)(file_graph self :=
           fill_file_graph (root_dir self) parsed_files (objects h (file_graph self)))\<rparr>)"

definition build_entity_graph :: "GraphBuilder \<Rightarrow> ParsedFile list \<Rightarrow> heap \<Rightarrow> nat \<times> heap" where
  "build_entity_graph self parsed_files h =
     (entity_graph self,
      h\<lparr>objects := (objects h)(entity_graph self :=
           fill_entity_graph (root_dir self) parsed_files (objects h (entity_graph self)))\<rparr>)"

section \<open>The graph analyzer (graph/analyzer.py)\<close>

text \<open>
  \<open>nx.simple_cycles\<close> is a function of the library: it reads the node and edge
  dictionaries of the graph, not their attributes, so it is a parameter
  \<open>simple_cycles\<close> from the graph's structure to the list it yields. \<open>None\<close> is a
  raised exception, which \<open>find_circular_dependencies\<close> turns into \<open>[]\<close>.
\<close>

type_synonym graph_structure = "string list \<times> (string \<times> string) list"

definition structure_of :: "digraph \<Rightarrow> graph_structure" where
  "structure_of g = (map fst (nodes g), map fst (edges g))"

definition find_circular_dependencies ::
  "(graph_structure \<Rightarrow> string list list option) \<Rightarrow> digraph \<Rightarrow> string list list" where
  "find_circular_dependencies simple_cycles g =
     (case simple_cycles (structure_of g) of
        None \<Rightarrow> []
      | Some cycles \<Rightarrow> sort_key length (filter (\<lambda>c. length c > 1) cycles))"

text \<open>\<open>find_stranded_nodes\<close>; \<open>entry_points or []\<close> makes \<open>None\<close> the empty list.\<close>

definition find_stranded_nodes :: "digraph \<Rightarrow> string list option \<Rightarrow> string list" where
  "find_stranded_nodes g entry_points =
     (let eps = (case entry_points of None \<Rightarrow> [] | Some l \<Rightarrow> l)
      in filter (\<lambda>node. nx_in_degree g node = 0 \<and> \<not> list_ex (\<lambda>ep. py_in ep node) eps)
           (map fst (nodes g)))"

text \<open>\<open>mark_cycles\<close>: the assignments \<open>graph.nodes[node]['in_cycle'] = b\<close> and
  \<open>graph.edges[source, target]['in_cycle'] = True\<close> change the attribute dictionary
  the graph holds for the key.\<close>

definition set_node_flag :: "string list list \<Rightarrow> digraph \<Rightarrow> string \<Rightarrow> digraph" where
  "set_node_flag cycles g node =
     g\<lparr>nodes := AList.map_entry node
                   (AList.update ''in_cycle'' (ABool (node \<in> set (concat cycles)))) (nodes g)\<rparr>"

definition cycle_edges :: "string list \<Rightarrow> (string \<times> string) list" where
  "cycle_edges c = map (\<lambda>i. (c ! i, c ! ((i + 1) mod length c))) [0..<length c]"

definition set_edge_flag :: "digraph \<Rightarrow> string \<times> string \<Rightarrow> digraph" where
  "set_edge_flag g e =
     (if nx_has_edge g (fst e) (snd e)
      then g\<lparr>edges := AList.map_entry e (AList.update ''in_cycle'' (ABool True)) (edges g)\<rparr>
      else g)"

definition mark_cycles ::
  "(graph_structure \<Rightarrow> string list list option) \<Rightarrow> digraph \<Rightarrow> digraph" where
  "mark_cycles simple_cycles g =
     (let cycles = find_circular_dependencies simple_cycles g;
          g1 = foldl (set_node_flag cycles) g (map fst (nodes g))
      in foldl set_edge_flag g1 (concat (map cycle_edges cycles)))"

text \<open>What a reader of the flag sees: \<open>data.get('in_cycle', False)\<close> is \<open>True\<close>.\<close>

definition flag_set :: "attrs \<Rightarrow> bool" where
  "flag_set a = (map_of a ''in_cycle'' = Some (ABool True))"

definition node_in_cycle :: "digraph \<Rightarrow> string \<Rightarrow> bool" where
  "node_in_cycle g n = (case map_of (nodes g) n of None \<Rightarrow> False | Some a \<Rightarrow> flag_set a)"

definition edge_in_cycle :: "digraph \<Rightarrow> string \<times> string \<Rightarrow> bool" where
  "edge_in_cycle g e = (case map_of (edges g) e of None \<Rightarrow> False | Some a \<Rightarrow> flag_set a)"

section \<open>The JavaScript and TypeScript parser (parsers/javascript_parser.py)\<close>

text \<open>
  The value \<open>esprima.parseModule\<close> returns is either a \<open>dict\<close> or another object.
  The tree walks of \<open>_extract_imports\<close> and \<open>_extract_definitions\<close> start with
  \<open>if isinstance(node, dict)\<close> and do nothing for any other object;
  \<open>_extract_comments\<close> starts with \<open>if hasattr(tree, 'comments')\<close>, which a
  \<open>dict\<close> does not have. What the walks do with a \<open>dict\<close>, what the loop over
  \<open>tree.comments\<close> does with another object, and the two methods built on regular
  expressions are parameters: each may be any function, and the walks may raise.
\<close>

datatype ('d, 'o) js_tree = JsDict 'd | JsObject 'o

record ('d, 'o) js_library =
  parseModule :: "string \<Rightarrow> py_exception + ('d, 'o) js_tree"
  visit_imports :: "'d \<Rightarrow> py_exception + Import list"
  visit_definitions :: "'d \<Rightarrow> string \<Rightarrow> py_exception + Definition list"
  loop_comments :: "'o \<Rightarrow> string \<Rightarrow> py_exception + Comment list"
  extract_imports_regex :: "string \<Rightarrow> Import list"
  extract_comments_regex :: "string \<Rightarrow> Comment list"

definition js_extract_imports ::
  "('d, 'o) js_library \<Rightarrow> ('d, 'o) js_tree \<Rightarrow> py_exception + Import list" where
  "js_extract_imports lib tree =
     (case tree of JsDict d \<Rightarrow> visit_imports lib d | JsObject ob \<Rightarrow> Inr [])"

definition js_extract_definitions ::
  "('d, 'o) js_library \<Rightarrow> ('d, 'o) js_tree \<Rightarrow> string \<Rightarrow> py_exception + Definition list" where
  "js_extract_definitions lib tree content =
     (case tree of JsDict d \<Rightarrow> visit_definitions lib d content | JsObject ob \<Rightarrow> Inr [])"

definition js_extract_comments ::
  "('d, 'o) js_library \<Rightarrow> ('d, 'o) js_tree \<Rightarrow> string \<Rightarrow> py_exception + Comment list" where
  "js_extract_comments lib tree content =
     (case tree of JsDict d \<Rightarrow> Inr [] | JsObject ob \<Rightarrow> loop_comments lib ob content)"

text \<open>
  The \<open>try\<close> block of \<open>parse_file\<close>: each assignment to \<open>parsed\<close> is kept when a
  later statement raises.
\<close>

definition primary_parse ::
  "('d, 'o) js_library \<Rightarrow> string \<Rightarrow> ParsedFile \<Rightarrow> py_exception \<times> ParsedFile + ParsedFile" where
  "primary_parse lib content parsed =
     (case parseModule lib content of
        Inl e \<Rightarrow> Inl (e, parsed)
      | Inr tree \<Rightarrow>
          (case js_extract_imports lib tree of
             Inl e \<Rightarrow> Inl (e, parsed)
           | Inr imps \<Rightarrow>
               (let p1 = parsed\<lparr>pf_imports := imps\<rparr>
                in case js_extract_definitions lib tree content of
                     Inl e \<Rightarrow> Inl (e, p1)
                   | Inr defs \<Rightarrow>
                       (let p2 = p1\<lparr>definitions := defs\<rparr>
                        in case js_extract_comments lib tree content of
                             Inl e \<Rightarrow> Inl (e, p2)
                           | Inr coms \<Rightarrow> Inr (p2\<lparr>comments := coms\<rparr>)))))"

definition JavaScriptParser_parse_file ::
  "('d, 'o) js_library \<Rightarrow> file_system \<Rightarrow> string \<Rightarrow> py_exception + ParsedFile" where
  "JavaScriptParser_parse_file lib fs path =
     (case read_file fs path of
        Inl e \<Rightarrow> Inl e
      | Inr content \<Rightarrow>
          (let lang = (if endswith path ''.ts'' \<or> endswith path ''.tsx''
                       then ''typescript'' else ''javascript'');
               parsed = \<lparr>file_path = path, language = lang, pf_imports = [],
                         definitions = [], comments = [],
                         lines_of_code = count_lines content, raw_content = content\<rparr>
           in case primary_parse lib content parsed of
                Inr p \<Rightarrow> Inr p
              | Inl (e, p) \<Rightarrow>
                  Inr (p\<lparr>pf_imports := extract_imports_regex lib content,
                         comments := extract_comments_regex lib content\<rparr>)))"

section \<open>The parse loop of the command line (cli.py)\<close>

text \<open>
  \<open>analyze\<close> parses every discovered file, a pair of a path and a language tag, with
  the parser of its language, and leaves out a file whose \<open>parse_file\<close> raises.
\<close>

definition parse_files ::
  "nat \<Rightarrow> (string \<Rightarrow> py_exception + py_ast) \<Rightarrow> ('d, 'o) js_library \<Rightarrow> file_system \<Rightarrow>
   (string \<times> string) list \<Rightarrow> ParsedFile list" where
  "parse_files limit ast_parse lib fs files =
     concat (map (\<lambda>(path, lang).
                    case (if lang = ''python''
                          then PythonParser_parse_file limit ast_parse fs path
                          else JavaScriptParser_parse_file lib fs path) of
                      Inr parsed \<Rightarrow> [parsed]
                    | Inl e \<Rightarrow> []) files)"

section \<open>Specification predicates and scenarios\<close>

text \<open>A line that counts as code: not empty once stripped, and its stripped form
  starts with neither \<open>#\<close> nor \<open>//\<close>.\<close>

definition counted_line :: "string \<Rightarrow> bool" where
  "counted_line l =
     (py_strip l \<noteq> [] \<and> \<not> prefix ''#'' (py_strip l) \<and> \<not> prefix ''//'' (py_strip l))"



text \<open>
  The project of the scenarios, under \<open>/proj\<close>. \<open>a.py\<close> and \<open>b.py\<close> import each
  other and call each other's function; \<open>foo.py\<close> imports \<open>foo\<close>;
  \<open>tools/os_helper.py\<close> imports \<open>os\<close>; \<open>demo.py\<close> has four lines, one of them
  code; \<open>demo.js\<close> has a statement and a comment; \<open>broken.py\<close> has a syntax error;
  \<open>latin.py\<close> is not valid UTF-8 and is read as latin-1; \<open>deep.py\<close> is the one
  line \<open>x = 1+1+...+1\<close> with 500 terms; there is no other file.
\<close>

definition a_py :: string where
  "a_py = ''from . import b'' @ [CHR 0x0A] @ ''def fa(): return b.fb()'' @ [CHR 0x0A]"

definition b_py :: string where
  "b_py = ''from . import a'' @ [CHR 0x0A] @ ''def fb(): return a.fa()'' @ [CHR 0x0A]"

definition foo_py :: string where
  "foo_py = ''import foo'' @ [CHR 0x0A]"

definition os_helper_py :: string where
  "os_helper_py = ''import os'' @ [CHR 0x0A]"

definition demo_content :: string where
  "demo_content = ''x = 1'' @ [CHR 0x0A] @ ''  # note'' @ [CHR 0x0A] @ [CHR 0x0A]"

definition js_content :: string where
  "js_content = ''let x = 1;'' @ [CHR 0x0A] @ ''// old'' @ [CHR 0x0A]"

definition broken_content :: string where
  "broken_content = ''# broken'' @ [CHR 0x0A] @ ''def f(:'' @ [CHR 0x0A]"

definition latin_content :: string where
  "latin_content = ''# caf'' @ [CHR 0xE9] @ [CHR 0x0A] @ ''x = 1'' @ [CHR 0x0A]"

definition deep_py :: string where
  "deep_py = ''x = '' @ concat (replicate 499 ''1+'') @ ''1'' @ [CHR 0x0A]"

definition demo_fs :: file_system where
  "demo_fs path enc =
     (if path = ''/proj/a.py'' then Inr a_py
      else if path = ''/proj/b.py'' then Inr b_py
      else if path = ''/proj/foo.py'' then Inr foo_py
      else if path = ''/proj/tools/os_helper.py'' then Inr os_helper_py
      else if path = ''/proj/demo.py'' then Inr demo_content
      else if path = ''/proj/demo.js'' then Inr js_content
      else if path = ''/proj/broken.py'' then Inr broken_content
      else if path = ''/proj/deep.py'' then Inr deep_py
      else if path = ''/proj/latin.py''
           then (if enc = UTF8 then Inl UnicodeDecodeError else Inr latin_content)
      else Inl OSError)"

text \<open>
  \<open>demo_ast_parse\<close> is \<open>ast.parse\<close> on the Python texts of the project: the trees are
  the ones Python 3.11 builds. A node that the parser never reads (an \<open>arguments\<close>,
  \<open>alias\<close>, \<open>Return\<close>, \<open>Assign\<close>, \<open>BinOp\<close>, \<open>Add\<close>, \<open>Load\<close> or \<open>Store\<close> node) is
  an \<open>ast_Other\<close> node, with line 0 where Python gives it no line. \<open>sum_expr n\<close> is
  the tree of \<open>1+1+...+1\<close> with \<open>n\<close> additions, which Python nests to the left.
  \<open>interpreter_limit\<close> is the recursion limit Python starts with; the frames left to
  the parser are fewer.
\<close>

definition interpreter_limit :: nat where
  "interpreter_limit = 1000"

definition leaf :: py_ast where
  "leaf = Node ast_Other 0 None []"

definition cycle_tree :: "string \<Rightarrow> string \<Rightarrow> string \<Rightarrow> py_ast" where
  "cycle_tree other f g =
     Node (ast_Module None) 0 None
       [Node (ast_ImportFrom None [(other, None)]) 1 (Some 1) [Node ast_Other 1 (Some 1) []],
        Node (ast_FunctionDef f [] None) 2 (Some 2)
          [leaf,
           Node ast_Other 2 (Some 2)
             [Node ast_Call 2 (Some 2)
                [Node (ast_Attribute g) 2 (Some 2)
                   [Node (ast_Name other) 2 (Some 2) [leaf], leaf]]]]]"

definition import_tree :: "string \<Rightarrow> py_ast" where
  "import_tree m =
     Node (ast_Module None) 0 None
       [Node (ast_Import [(m, None)]) 1 (Some 1) [Node ast_Other 1 (Some 1) []]]"

definition assign_tree :: "int \<Rightarrow> string \<Rightarrow> py_ast \<Rightarrow> py_ast" where
  "assign_tree l x v =
     Node (ast_Module None) 0 None
       [Node ast_Other l (Some l) [Node (ast_Name x) l (Some l) [leaf], v]]"

definition literal :: "int \<Rightarrow> py_ast" where
  "literal l = Node ast_Constant l (Some l) []"

primrec sum_expr :: "nat \<Rightarrow> py_ast" where
  "sum_expr 0 = literal 1"
| "sum_expr (Suc n) = Node ast_Other 1 (Some 1) [sum_expr n, leaf, literal 1]"

definition demo_ast_parse :: "string \<Rightarrow> py_exception + py_ast" where
  "demo_ast_parse content =
     (if content = a_py then Inr (cycle_tree ''b'' ''fa'' ''fb'')
      else if content = b_py then Inr (cycle_tree ''a'' ''fb'' ''fa'')
      else if content = foo_py then Inr (import_tree ''foo'')
      else if content = os_helper_py then Inr (import_tree ''os'')
      else if content = demo_content then Inr (assign_tree 1 ''x'' (literal 1))
      else if content = latin_content then Inr (assign_tree 2 ''x'' (literal 2))
      else if content = deep_py then Inr (assign_tree 1 ''x'' (sum_expr 499))
      else Inl SyntaxError)"

text \<open>
  \<open>demo_js\<close> is a library whose \<open>parseModule\<close> returns an object that is not a
  \<open>dict\<close> and whose comments have no \<open>get\<close> method, so that the loop over the
  comments of \<open>demo.js\<close> raises; the regular expressions find that comment.
\<close>

definition demo_js :: "(unit, unit) js_library" where
  "demo_js =
     \<lparr>parseModule = (\<lambda>c. Inr (JsObject ())),
      visit_imports = (\<lambda>d. Inr []),
      visit_definitions = (\<lambda>d c. Inr []),
      loop_comments = (\<lambda>ob c. if c = js_content then Inl TypeError else Inr []),
      extract_imports_regex = (\<lambda>c. []),
      extract_comments_regex =
        (\<lambda>c. if c = js_content
             then [\<lparr>comment_text = ''old'', comment_line = 2, is_docstring = False,
                     parent_entity = None\<rparr>]
             else [])\<rparr>"

text \<open>The graph of the entry-point scenario.\<close>

definition entry_graph :: digraph where
  "entry_graph = \<lparr>nodes = [(''main.py'', []), (''orphan.py'', []), (''pkg/util.py'', [])],
                  edges = [((''main.py'', ''pkg/util.py''), [(''import_type'', AStr ''direct'')])]\<rparr>"

text \<open>
  An elementary cycle of a graph: a non-empty list of distinct nodes in which every
  node has an edge of the graph to the next one, and the last to the first. Two lists
  are the same cycle when one is a rotation of the other.
\<close>

definition elementary_cycle :: "digraph \<Rightarrow> string list \<Rightarrow> bool" where
  "elementary_cycle g c =
     (c \<noteq> [] \<and> distinct c \<and>
      (\<forall>i < length c. nx_has_edge g (c ! i) (c ! ((i + 1) mod length c))))"

definition same_cycle :: "string list \<Rightarrow> string list \<Rightarrow> bool" where
  "same_cycle c c' = (\<exists>k. c' = rotate k c)"

text \<open>
  What the library promises of \<open>nx.simple_cycles\<close>, in terms of what it is given, the
  node list and the edge list \<open>s\<close>: every list it yields is an elementary cycle of
  \<open>s\<close>, and every elementary cycle of \<open>s\<close> is yielded once.
\<close>

definition structure_cycle :: "graph_structure \<Rightarrow> string list \<Rightarrow> bool" where
  "structure_cycle s c =
     (c \<noteq> [] \<and> distinct c \<and>
      (\<forall>i < length c. (c ! i, c ! ((i + 1) mod length c)) \<in> set (snd s)))"

definition yields_each_cycle_once :: "graph_structure \<Rightarrow> string list list \<Rightarrow> bool" where
  "yields_each_cycle_once s cs =
     ((\<forall>c \<in> set cs. structure_cycle s c) \<and>
      (\<forall>c. structure_cycle s c \<longrightarrow> length (filter (same_cycle c) cs) = 1))"

text \<open>
  A reference enumeration that keeps this promise for every \<open>s\<close>; the scenarios use it
  in the place of the library. It tries every list of distinct nodes, the shorter lists
  first, and keeps the cycles that start at their first node in the order of the nodes.
  The library yields the same cycles in an order and a rotation of its own.
\<close>

fun arrangements :: "nat \<Rightarrow> 'a list \<Rightarrow> 'a list list" where
  "arrangements 0 ns = [[]]"
| "arrangements (Suc k) ns =
     concat (map (\<lambda>x. map ((#) x) (filter (\<lambda>p. x \<notin> set p) (arrangements k ns))) ns)"

definition starts_at_first :: "string list \<Rightarrow> string list \<Rightarrow> bool" where
  "starts_at_first ns c = (find (\<lambda>x. x \<in> set c) ns = Some (hd c))"

definition is_cycle :: "(string \<times> string) list \<Rightarrow> string list \<Rightarrow> bool" where
  "is_cycle es c = (c \<noteq> [] \<and> distinct c \<and> list_all (\<lambda>e. e \<in> set es) (cycle_edges c))"

definition reference_cycles :: "graph_structure \<Rightarrow> string list list" where
  "reference_cycles s =
     (let ns = rev (remdups (rev (fst s @ map fst (snd s) @ map snd (snd s))))
      in filter (\<lambda>c. is_cycle (snd s) c \<and> starts_at_first ns c)
           (concat (map (\<lambda>k. arrangements k ns) [1..<Suc (length ns)])))"

text \<open>No edge of the graph joins a node to itself.\<close>

definition no_self_edge :: "digraph \<Rightarrow> bool" where
  "no_self_edge g = (\<forall>e \<in> fst ` set (edges g). fst e \<noteq> snd e)"

text \<open>The ids of the nodes of a graph.\<close>

definition node_ids :: "digraph \<Rightarrow> string set" where
  "node_ids g = fst ` set (nodes g)"

text \<open>No edge of the graph carries an in-cycle flag.\<close>

definition unflagged :: "digraph \<Rightarrow> bool" where
  "unflagged g = (\<forall>p \<in> set (edges g). map_of (snd p) ''in_cycle'' = None)"

text \<open>\<open>mark_all f xs ks\<close> applies \<open>f k\<close> to the entry of every key \<open>k\<close> of \<open>ks\<close>
  in turn; both loops of \<open>mark_cycles\<close> have this form.\<close>

definition mark_all :: "('k \<Rightarrow> 'v \<Rightarrow> 'v) \<Rightarrow> ('k \<times> 'v) list \<Rightarrow> 'k list \<Rightarrow> ('k \<times> 'v) list" where
  "mark_all f xs ks = foldl (\<lambda>l k. AList.map_entry k (f k) l) xs ks"

text \<open>An empty heap, the builder of the project and the heap it starts on.\<close>

definition empty_heap :: heap where
  "empty_heap = \<lparr>objects = (\<lambda>r. nx_empty), next_free = 0\<rparr>"

definition cycle_files :: "ParsedFile list" where
  "cycle_files =
     parse_files interpreter_limit demo_ast_parse demo_js demo_fs
       [(''/proj/a.py'', ''python''), (''/proj/b.py'', ''python'')]"

definition self_import_files :: "ParsedFile list" where
  "self_import_files =
     parse_files interpreter_limit demo_ast_parse demo_js demo_fs
       [(''/proj/foo.py'', ''python''), (''/proj/tools/os_helper.py'', ''python'')]"

definition proj_builder :: GraphBuilder where
  "proj_builder = fst (GraphBuilder_init ''/proj'' empty_heap)"

definition proj_heap :: heap where
  "proj_heap = snd (GraphBuilder_init ''/proj'' empty_heap)"

text \<open>Three builds with the one builder: the file graph of the cycle scenario, then
  the file graph of the self-importing files, and the entity graph of the cycle
  scenario.\<close>

definition first_build :: "nat \<times> heap" where
  "first_build = build_file_graph proj_builder cycle_files proj_heap"

definition second_build :: "nat \<times> heap" where
  "second_build = build_file_graph proj_builder self_import_files (snd first_build)"

definition entity_build :: "nat \<times> heap" where
  "entity_build = build_entity_graph proj_builder cycle_files (snd first_build)"

text \<open>
  Graphs for the analyzer. \<open>loop_graph\<close> has a self-loop at \<open>a.py\<close>, the 2-cycle of
  \<open>a.py\<close> with \<open>b.py\<close> and the 3-cycle through \<open>a.py\<close>, \<open>b.py\<close> and \<open>c.py\<close>.
  \<open>two_cycle_graph\<close> has the 2-cycles of \<open>a.py\<close> with \<open>b.py\<close> and of \<open>b.py\<close> with
  \<open>c.py\<close>. \<open>demo_cycles\<close> is a library that yields the cycles as the reference
  enumeration does, \<open>late_cycles\<close> one that yields the longer cycles first, and
  \<open>no_cycles\<close> one that raises. \<open>stale_graph\<close> is \<open>two_cycle_graph\<close> after
  \<open>mark_cycles\<close> and then \<open>graph.remove_edge('c.py', 'b.py')\<close>, which deletes the
  entry of the edge.
\<close>

definition loop_graph :: digraph where
  "loop_graph =
     \<lparr>nodes = [(''a.py'', []), (''b.py'', []), (''c.py'', [])],
      edges = [((''a.py'', ''a.py''), []), ((''a.py'', ''b.py''), []), ((''b.py'', ''a.py''), []),
               ((''b.py'', ''c.py''), []), ((''c.py'', ''a.py''), [])]\<rparr>"

definition two_cycle_graph :: digraph where
  "two_cycle_graph =
     \<lparr>nodes = [(''a.py'', []), (''b.py'', []), (''c.py'', [])],
      edges = [((''a.py'', ''b.py''), [(''import_type'', AStr ''direct'')]),
               ((''b.py'', ''a.py''), [(''import_type'', AStr ''direct'')]),
               ((''b.py'', ''c.py''), [(''import_type'', AStr ''direct'')]),
               ((''c.py'', ''b.py''), [(''import_type'', AStr ''direct'')])]\<rparr>"

definition demo_cycles :: "graph_structure \<Rightarrow> string list list option" where
  "demo_cycles s = Some (reference_cycles s)"

definition late_cycles :: "graph_structure \<Rightarrow> string list list option" where
  "late_cycles s = Some (rev (reference_cycles s))"

definition no_cycles :: "graph_structure \<Rightarrow> string list list option" where
  "no_cycles s = None"

definition nx_remove_edge :: "string \<Rightarrow> string \<Rightarrow> digraph \<Rightarrow> digraph" where
  "nx_remove_edge u v g = g\<lparr>edges := filter (\<lambda>p. fst p \<noteq> (u, v)) (edges g)\<rparr>"

definition stale_graph :: digraph where
  "stale_graph = nx_remove_edge ''c.py'' ''b.py'' (mark_cycles demo_cycles two_cycle_graph)"

section \<open>Lemmas\<close>

subsection \<open>Parsing\<close>

lemma count_lines_card:
  "count_lines content =
     int (card {i. i < length (py_split (CHR 0x0A) content) \<and>
                   counted_line (py_split (CHR 0x0A) content ! i)})"
  unfolding count_lines_def counted_line_def Let_def startswith_any_def startswith_def
  by (simp add: length_filter_conv_card)

lemma count_lines_zero:
  "\<forall>l\<in>set (py_split (CHR 0x0A) content). \<not> counted_line l \<Longrightarrow> count_lines content = 0"
  unfolding count_lines_def counted_line_def Let_def startswith_any_def startswith_def
  by (simp add: filter_empty_conv)

lemma py_parse_file_loc:
  assumes "PythonParser_parse_file limit ast_parse fs path = Inr p"
  shows "\<exists>content. read_file fs path = Inr content \<and> raw_content p = content \<and>
           lines_of_code p = count_lines content"
  using assms unfolding PythonParser_parse_file_def except_SyntaxError_def Let_def
  by (auto split: sum.splits if_splits)

lemma primary_parse_frame:
  "primary_parse lib content parsed = Inr q \<Longrightarrow>
     raw_content q = raw_content parsed \<and> lines_of_code q = lines_of_code parsed \<and>
     file_path q = file_path parsed \<and> language q = language parsed"
  "primary_parse lib content parsed = Inl (e, q) \<Longrightarrow>
     raw_content q = raw_content parsed \<and> lines_of_code q = lines_of_code parsed \<and>
     file_path q = file_path parsed \<and> language q = language parsed"
  unfolding primary_parse_def Let_def
  by (auto split: sum.splits)

lemma js_parse_file_loc:
  assumes "JavaScriptParser_parse_file lib fs path = Inr p"
  shows "\<exists>content. read_file fs path = Inr content \<and> raw_content p = content \<and>
           lines_of_code p = count_lines content"
  using assms unfolding JavaScriptParser_parse_file_def Let_def
  by (auto split: sum.splits prod.splits dest!: primary_parse_frame)


subsection \<open>The call stack\<close>












subsection \<open>In-degree\<close>

lemma in_degree_zero_iff: "nx_in_degree g n = 0 \<longleftrightarrow> (\<forall>u. \<not> nx_has_edge g u n)"
proof -
  have "nx_in_degree g n = 0 \<longleftrightarrow> (\<forall>e\<in>set (map fst (edges g)). snd e \<noteq> n)"
    unfolding nx_in_degree_def by (simp add: filter_empty_conv)
  also have "\<dots> \<longleftrightarrow> (\<forall>u. (u, n) \<notin> set (map fst (edges g)))"
    by fastforce
  finally show ?thesis
    by (simp add: nx_has_edge_def)
qed

subsection \<open>Edges of a graph under construction\<close>

lemma foldl_preserves:
  assumes "\<And>s x. P s \<Longrightarrow> P (f s x)" and "P s"
  shows "P (foldl f s xs)"
  using assms(2) by (induction xs arbitrary: s) (auto intro: assms(1))

lemma foldl_preserves_on:
  assumes "\<And>s x. x \<in> set xs \<Longrightarrow> P s \<Longrightarrow> P (f s x)" and "P s"
  shows "P (foldl f s xs)"
  using assms by (induction xs arbitrary: s) auto

lemma edges_nx_add_node: "edges (nx_add_node n a g) = edges g"
  by (simp add: nx_add_node_def split: option.splits)

lemma edges_nx_ensure_node: "edges (nx_ensure_node n g) = edges g"
  by (simp add: nx_ensure_node_def)

lemma edge_keys_nx_add_edge:
  "fst ` set (edges (nx_add_edge u v a g)) = insert (u, v) (fst ` set (edges g))"
proof (cases "map_of (edges g) (u, v)")
  case None
  then show ?thesis
    by (simp add: nx_add_edge_def Let_def edges_nx_ensure_node)
next
  case (Some old)
  then show ?thesis
    by (simp add: nx_add_edge_def Let_def edges_nx_ensure_node dom_update)
qed

lemma no_self_edge_nx_add_edge:
  "no_self_edge g \<Longrightarrow> u \<noteq> v \<Longrightarrow> no_self_edge (nx_add_edge u v a g)"
  by (simp add: no_self_edge_def edge_keys_nx_add_edge)

lemma no_self_edge_add_call_edge:
  "no_self_edge g \<Longrightarrow> no_self_edge (add_call_edge em source_id g call)"
  by (simp add: add_call_edge_def Let_def no_self_edge_nx_add_edge
      split: option.splits prod.splits)

lemma no_self_edge_add_entity_edges:
  "no_self_edge g \<Longrightarrow> no_self_edge (add_entity_edges root em g pf)"
  unfolding add_entity_edges_def add_definition_edges_def
  by (intro foldl_preserves [where P = no_self_edge] no_self_edge_add_call_edge)

lemma edges_add_entity_nodes:
  "edges (snd (add_entity_nodes root st pf)) = edges (snd st)"
  unfolding add_entity_nodes_def
  by (rule foldl_preserves [where P = "\<lambda>s. edges (snd s) = edges (snd st)"])
     (simp_all add: add_entity_node_def Let_def edges_nx_add_node)

lemma entity_graph_has_no_self_edge:
  "\<not> nx_has_edge (fill_entity_graph root parsed_files g0) n n"
proof -
  let ?st = "foldl (add_entity_nodes root) ([], nx_clear g0) parsed_files"
  have "edges (snd ?st) = []"
    by (rule foldl_preserves [where P = "\<lambda>s. edges (snd s) = []"])
       (simp_all add: edges_add_entity_nodes nx_clear_def nx_empty_def)
  then have "no_self_edge (snd ?st)"
    by (simp add: no_self_edge_def)
  then have "no_self_edge (fill_entity_graph root parsed_files g0)"
    unfolding fill_entity_graph_def Let_def
    by (intro foldl_preserves [where P = no_self_edge] no_self_edge_add_entity_edges)
  then show ?thesis
    by (auto simp: no_self_edge_def nx_has_edge_def)
qed

lemma built_entity_graph_has_no_self_edge:
  "\<not> nx_has_edge (objects (snd (build_entity_graph self files h))
                   (fst (build_entity_graph self files h))) n n"
  by (simp add: build_entity_graph_def entity_graph_has_no_self_edge)

lemma set_update_subset: "set (AList.update k v al) \<subseteq> insert (k, v) (set al)"
  by (induction al) auto

lemma unflagged_nx_add_edge:
  assumes "unflagged g" and "k \<noteq> ''in_cycle''"
  shows "unflagged (nx_add_edge u v [(k, x)] g)"
proof (cases "map_of (edges g) (u, v)")
  case None
  with assms show ?thesis
    by (simp add: nx_add_edge_def Let_def edges_nx_ensure_node unflagged_def dict_update_def)
next
  case (Some old)
  then have "((u, v), old) \<in> set (edges g)"
    by (rule map_of_SomeD)
  with assms have o: "map_of (AList.update k x old) ''in_cycle'' = None"
    by (auto simp: unflagged_def update_conv')
  have "\<forall>p \<in> set (AList.update (u, v) (AList.update k x old) (edges g)).
          map_of (snd p) ''in_cycle'' = None"
    using set_update_subset [of "(u, v)" "AList.update k x old" "edges g"] assms(1) o
    by (auto simp: unflagged_def)
  with Some show ?thesis
    by (simp add: nx_add_edge_def Let_def edges_nx_ensure_node unflagged_def dict_update_def)
qed

lemma unflagged_add_file_edges:
  "unflagged g \<Longrightarrow> unflagged (add_file_edges root m files g pf)"
  unfolding add_file_edges_def add_import_edges_def
  by (intro foldl_preserves [where P = unflagged])
     (simp add: add_target_edge_def unflagged_nx_add_edge)

lemma edges_add_file_node: "edges (add_file_node root g pf) = edges g"
  by (simp add: add_file_node_def Let_def edges_nx_add_node)

lemma unflagged_fill_file_graph: "unflagged (fill_file_graph root files g0)"
proof -
  have "edges (foldl (add_file_node root) (nx_clear g0) files) = []"
    by (rule foldl_preserves [where P = "\<lambda>g. edges g = []"])
       (simp_all add: edges_add_file_node nx_clear_def nx_empty_def)
  then have "unflagged (foldl (add_file_node root) (nx_clear g0) files)"
    by (simp add: unflagged_def)
  then show ?thesis
    unfolding fill_file_graph_def Let_def
    by (rule foldl_preserves [where P = unflagged, rotated]) (rule unflagged_add_file_edges)
qed

lemma unflagged_fill_entity_graph: "unflagged (fill_entity_graph root files g0)"
proof -
  let ?st = "foldl (add_entity_nodes root) ([], nx_clear g0) files"
  have "edges (snd ?st) = []"
    by (rule foldl_preserves [where P = "\<lambda>s. edges (snd s) = []"])
       (simp_all add: edges_add_entity_nodes nx_clear_def nx_empty_def)
  then have "unflagged (snd ?st)"
    by (simp add: unflagged_def)
  then show ?thesis
    unfolding fill_entity_graph_def Let_def add_entity_edges_def add_definition_edges_def
    by (intro foldl_preserves [where P = unflagged])
       (simp add: add_call_edge_def Let_def unflagged_nx_add_edge split: option.splits prod.splits)
qed

lemma unflagged_edge: "unflagged g \<Longrightarrow> \<not> edge_in_cycle g e"
proof (cases "map_of (edges g) e")
  case None
  then show ?thesis by (simp add: edge_in_cycle_def)
next
  case (Some a)
  assume "unflagged g"
  moreover from Some have "(e, a) \<in> set (edges g)"
    by (rule map_of_SomeD)
  ultimately have "map_of a ''in_cycle'' = None"
    by (auto simp: unflagged_def)
  with Some show ?thesis
    by (simp add: edge_in_cycle_def flag_set_def)
qed

subsection \<open>Nodes of a built graph\<close>

lemma node_ids_nx_add_node: "node_ids (nx_add_node n a g) = insert n (node_ids g)"
  by (cases "map_of (nodes g) n") (auto simp: nx_add_node_def node_ids_def dom_update)

lemma node_ids_nx_ensure_node: "node_ids (nx_ensure_node n g) = insert n (node_ids g)"
  by (auto simp: nx_ensure_node_def nx_has_node_def node_ids_def)

lemma node_ids_nx_add_edge: "node_ids (nx_add_edge u v a g) = insert u (insert v (node_ids g))"
proof -
  have "nodes (nx_add_edge u v a g) = nodes (nx_ensure_node v (nx_ensure_node u g))"
    by (simp add: nx_add_edge_def Let_def split: option.splits)
  then show ?thesis
    by (auto simp: node_ids_def node_ids_nx_ensure_node [unfolded node_ids_def])
qed

lemma has_node_iff: "nx_has_node g n \<longleftrightarrow> n \<in> node_ids g"
  by (simp add: nx_has_node_def node_ids_def)

lemma node_ids_add_target_edge:
  "source \<in> node_ids g \<Longrightarrow> node_ids (add_target_edge source g target) = node_ids g"
  by (simp add: add_target_edge_def node_ids_nx_add_edge has_node_iff insert_absorb)

lemma node_ids_add_file_edges:
  assumes "get_relative_path root (file_path pf) \<in> node_ids g"
  shows "node_ids (add_file_edges root m files g pf) = node_ids g"
  unfolding add_file_edges_def add_import_edges_def
  by (intro foldl_preserves [where P = "\<lambda>s. node_ids s = node_ids g"])
     (simp_all add: node_ids_add_target_edge assms)

lemma node_ids_file_nodes:
  "node_ids (foldl (add_file_node root) g files) =
     node_ids g \<union> (\<lambda>pf. get_relative_path root (file_path pf)) ` set files"
  by (induction files arbitrary: g)
     (auto simp: add_file_node_def Let_def node_ids_nx_add_node)

lemma node_ids_fill_file_graph:
  "node_ids (fill_file_graph root files g0) =
     (\<lambda>pf. get_relative_path root (file_path pf)) ` set files"
proof -
  let ?g2 = "foldl (add_file_node root) (nx_clear g0) files"
  have n: "node_ids ?g2 = (\<lambda>pf. get_relative_path root (file_path pf)) ` set files"
    by (simp add: node_ids_file_nodes) (simp add: node_ids_def nx_clear_def nx_empty_def)
  have "node_ids (foldl (add_file_edges root (create_module_mapping root files) files) ?g2 files)
          = node_ids ?g2"
    by (rule foldl_preserves_on [where P = "\<lambda>s. node_ids s = node_ids ?g2"])
       (simp_all add: node_ids_add_file_edges n)
  with n show ?thesis
    by (simp add: fill_file_graph_def Let_def)
qed

lemma node_ids_entity_nodes:
  "node_ids (snd (foldl (add_entity_node rel) st defs)) =
     node_ids (snd st) \<union> entity_id rel ` set defs"
  by (induction defs arbitrary: st)
     (auto simp: add_entity_node_def Let_def node_ids_nx_add_node)

lemma node_ids_entity_files:
  "node_ids (snd (foldl (add_entity_nodes root) st files)) =
     node_ids (snd st) \<union>
     (\<Union>pf \<in> set files. entity_id (get_relative_path root (file_path pf)) ` set (definitions pf))"
  by (induction files arbitrary: st)
     (auto simp: add_entity_nodes_def node_ids_entity_nodes)

lemma node_ids_add_call_edge:
  "source_id \<in> node_ids g \<Longrightarrow> node_ids (add_call_edge em source_id g call) = node_ids g"
  by (simp add: add_call_edge_def Let_def node_ids_nx_add_edge has_node_iff insert_absorb
      split: option.splits prod.splits)

lemma node_ids_add_entity_edges:
  assumes "entity_id (get_relative_path root (file_path pf)) ` set (definitions pf) \<subseteq> node_ids g"
  shows "node_ids (add_entity_edges root em g pf) = node_ids g"
  unfolding add_entity_edges_def
proof (rule foldl_preserves_on [where P = "\<lambda>s. node_ids s = node_ids g"])
  fix s x assume x: "x \<in> set (definitions pf)" and s: "node_ids s = node_ids g"
  have "node_ids (foldl (add_call_edge em (entity_id (get_relative_path root (file_path pf)) x))
                    s (calls x)) = node_ids s"
  proof (rule foldl_preserves [where P = "\<lambda>t. node_ids t = node_ids s"])
    fix t c assume t: "node_ids t = node_ids s"
    from x assms have "entity_id (get_relative_path root (file_path pf)) x \<in> node_ids t"
      unfolding t s by blast
    then show "node_ids (add_call_edge em (entity_id (get_relative_path root (file_path pf)) x)
                 t c) = node_ids s"
      using t by (simp add: node_ids_add_call_edge)
  qed simp
  with s show "node_ids (add_definition_edges em (get_relative_path root (file_path pf)) s x)
                 = node_ids g"
    by (simp add: add_definition_edges_def)
qed simp

lemma node_ids_fill_entity_graph:
  "node_ids (fill_entity_graph root files g0) =
     (\<Union>pf \<in> set files. entity_id (get_relative_path root (file_path pf)) ` set (definitions pf))"
proof -
  let ?st = "foldl (add_entity_nodes root) ([], nx_clear g0) files"
  have n: "node_ids (snd ?st) =
     (\<Union>pf \<in> set files. entity_id (get_relative_path root (file_path pf)) ` set (definitions pf))"
    by (simp add: node_ids_entity_files) (simp add: node_ids_def nx_clear_def nx_empty_def)
  have "node_ids (foldl (add_entity_edges root (fst ?st)) (snd ?st) files) = node_ids (snd ?st)"
  proof (rule foldl_preserves_on [where P = "\<lambda>s. node_ids s = node_ids (snd ?st)"])
    fix s pf assume pf: "pf \<in> set files" and s: "node_ids s = node_ids (snd ?st)"
    from pf have "entity_id (get_relative_path root (file_path pf)) ` set (definitions pf)
                    \<subseteq> node_ids s"
      unfolding s n by blast
    then show "node_ids (add_entity_edges root (fst ?st) s pf) = node_ids (snd ?st)"
      using s by (simp add: node_ids_add_entity_edges)
  qed simp
  with n show ?thesis
    by (simp add: fill_entity_graph_def Let_def)
qed

subsection \<open>Marking\<close>


lemma map_fst_map_entry: "map fst (AList.map_entry k f xs) = map fst xs"
  by (induction xs) auto

lemma map_entry_absent: "k \<notin> fst ` set xs \<Longrightarrow> AList.map_entry k f xs = xs"
  by (induction xs) auto

lemma map_entry_idem:
  "(\<And>x. f (f x) = f x) \<Longrightarrow> AList.map_entry k f (AList.map_entry k f xs) = AList.map_entry k f xs"
  by (induction xs) auto

lemma map_entry_commute:
  "k \<noteq> k' \<Longrightarrow>
   AList.map_entry k f (AList.map_entry k' f' xs) = AList.map_entry k' f' (AList.map_entry k f xs)"
  by (induction xs) auto

lemma mark_all_Nil [simp]: "mark_all f xs [] = xs"
  by (simp add: mark_all_def)

lemma mark_all_Cons [simp]: "mark_all f xs (k # ks) = mark_all f (AList.map_entry k (f k) xs) ks"
  by (simp add: mark_all_def)

lemma map_fst_mark_all: "map fst (mark_all f xs ks) = map fst xs"
  by (induction ks arbitrary: xs) (simp_all add: map_fst_map_entry)

lemma mark_all_map_entry:
  "mark_all f (AList.map_entry k (f k) xs) ks = AList.map_entry k (f k) (mark_all f xs ks)"
proof (induction ks arbitrary: xs)
  case Nil
  then show ?case by simp
next
  case (Cons k' ks)
  show ?case
  proof (cases "k = k'")
    case True
    then show ?thesis using Cons.IH by simp
  next
    case False
    then show ?thesis
      using Cons.IH [of "AList.map_entry k' (f k') xs"]
      by (simp add: map_entry_commute [of k k'])
  qed
qed

lemma mark_all_idem:
  assumes "\<And>k x. f k (f k x) = f k x"
  shows "mark_all f (mark_all f xs ks) ks = mark_all f xs ks"
proof (induction ks arbitrary: xs)
  case Nil
  then show ?case by simp
next
  case (Cons k ks)
  have "mark_all f (mark_all f xs (k # ks)) (k # ks) =
        mark_all f (AList.map_entry k (f k) (mark_all f (AList.map_entry k (f k) xs) ks)) ks"
    by simp
  also have "\<dots> = mark_all f (mark_all f (AList.map_entry k (f k) (AList.map_entry k (f k) xs)) ks) ks"
    by (simp add: mark_all_map_entry)
  also have "\<dots> = mark_all f (mark_all f (AList.map_entry k (f k) xs) ks) ks"
    by (simp add: map_entry_idem assms)
  also have "\<dots> = mark_all f (AList.map_entry k (f k) xs) ks"
    by (rule Cons.IH)
  finally show ?case by simp
qed

lemma map_of_mark_all:
  assumes "\<And>k x. f k (f k x) = f k x"
  shows "map_of (mark_all f xs ks) k =
           (if k \<in> set ks then map_option (f k) (map_of xs k) else map_of xs k)"
proof (induction ks arbitrary: xs)
  case Nil
  then show ?case by simp
next
  case (Cons k' ks)
  show ?case
    by (cases "map_of xs k")
       (auto simp: Cons.IH map_of_map_entry assms split: option.splits)
qed

lemma nodes_mark_nodes:
  "nodes (foldl (set_node_flag cycles) g ns) =
     mark_all (\<lambda>n. AList.update ''in_cycle'' (ABool (n \<in> set (concat cycles)))) (nodes g) ns"
  by (induction ns arbitrary: g) (simp_all add: set_node_flag_def)

lemma edges_mark_nodes: "edges (foldl (set_node_flag cycles) g ns) = edges g"
  by (induction ns arbitrary: g) (simp_all add: set_node_flag_def)

lemma set_edge_flag_eq:
  "set_edge_flag g e =
     g\<lparr>edges := AList.map_entry e (AList.update ''in_cycle'' (ABool True)) (edges g)\<rparr>"
  by (simp add: set_edge_flag_def nx_has_edge_def map_entry_absent)

lemma edges_mark_edges:
  "edges (foldl set_edge_flag g es) =
     mark_all (\<lambda>e. AList.update ''in_cycle'' (ABool True)) (edges g) es"
  by (induction es arbitrary: g) (simp_all add: set_edge_flag_eq)

lemma nodes_mark_edges: "nodes (foldl set_edge_flag g es) = nodes g"
  by (induction es arbitrary: g) (simp_all add: set_edge_flag_eq)

lemma nodes_mark_cycles:
  "nodes (mark_cycles sc g) =
     mark_all (\<lambda>n. AList.update ''in_cycle''
                      (ABool (n \<in> set (concat (find_circular_dependencies sc g)))))
       (nodes g) (map fst (nodes g))"
  by (simp add: mark_cycles_def Let_def nodes_mark_edges nodes_mark_nodes)

lemma edges_mark_cycles:
  "edges (mark_cycles sc g) =
     mark_all (\<lambda>e. AList.update ''in_cycle'' (ABool True)) (edges g)
       (concat (map cycle_edges (find_circular_dependencies sc g)))"
  by (simp add: mark_cycles_def Let_def edges_mark_edges edges_mark_nodes)

lemma structure_of_mark_cycles: "structure_of (mark_cycles sc g) = structure_of g"
  by (simp add: structure_of_def nodes_mark_cycles edges_mark_cycles map_fst_mark_all)

lemma cycles_of_mark_cycles:
  "find_circular_dependencies sc (mark_cycles sc g) = find_circular_dependencies sc g"
  by (simp add: find_circular_dependencies_def structure_of_mark_cycles)

lemma mark_cycles_idem: "mark_cycles sc (mark_cycles sc g) = mark_cycles sc g"
proof -
  have "nodes (mark_cycles sc (mark_cycles sc g)) = nodes (mark_cycles sc g)"
    by (simp add: nodes_mark_cycles cycles_of_mark_cycles map_fst_mark_all mark_all_idem)
  moreover have "edges (mark_cycles sc (mark_cycles sc g)) = edges (mark_cycles sc g)"
    by (simp add: edges_mark_cycles cycles_of_mark_cycles mark_all_idem)
  ultimately show ?thesis
    by simp
qed

lemma flag_set_update: "flag_set (AList.update ''in_cycle'' (ABool b) a) = b"
  by (simp add: flag_set_def update_conv')

lemma node_in_cycle_mark_cycles:
  assumes "nx_has_node g n"
  shows "node_in_cycle (mark_cycles sc g) n \<longleftrightarrow>
           (\<exists>c \<in> set (find_circular_dependencies sc g). n \<in> set c)"
proof -
  from assms obtain a where a: "map_of (nodes g) n = Some a"
    by (cases "map_of (nodes g) n") (auto simp: nx_has_node_def map_of_eq_None_iff)
  have "n \<in> set (map fst (nodes g))"
    using assms by (simp add: nx_has_node_def)
  then show ?thesis
    using a by (simp add: node_in_cycle_def nodes_mark_cycles map_of_mark_all flag_set_update)
qed

lemma in_cycle_edges_iff:
  "e \<in> set (cycle_edges c) \<longleftrightarrow> (\<exists>i < length c. e = (c ! i, c ! ((i + 1) mod length c)))"
  by (auto simp: cycle_edges_def)

lemma edge_in_cycle_mark_cycles:
  assumes "nx_has_edge g (fst e) (snd e)"
  shows "edge_in_cycle (mark_cycles sc g) e \<longleftrightarrow>
           (\<exists>c \<in> set (find_circular_dependencies sc g).
              \<exists>i < length c. e = (c ! i, c ! ((i + 1) mod length c))) \<or>
           edge_in_cycle g e"
proof -
  from assms obtain a where a: "map_of (edges g) e = Some a"
    by (cases "map_of (edges g) e") (auto simp: nx_has_edge_def map_of_eq_None_iff)
  have "e \<in> set (concat (map cycle_edges (find_circular_dependencies sc g))) \<longleftrightarrow>
        (\<exists>c \<in> set (find_circular_dependencies sc g).
              \<exists>i < length c. e = (c ! i, c ! ((i + 1) mod length c)))"
    by (simp add: in_cycle_edges_iff)
  then show ?thesis
    using a by (auto simp: edge_in_cycle_def edges_mark_cycles map_of_mark_all flag_set_update)
qed

lemma mark_cycles_on_built_graph:
  assumes "g = fill_file_graph root files g0 \<or> g = fill_entity_graph root files g0"
      and "nx_has_edge g (fst e) (snd e)"
  shows "edge_in_cycle (mark_cycles sc g) e \<longleftrightarrow>
           (\<exists>c \<in> set (find_circular_dependencies sc g).
              \<exists>i < length c. e = (c ! i, c ! ((i + 1) mod length c)))"
proof -
  from assms(1) have "unflagged g"
    using unflagged_fill_file_graph unflagged_fill_entity_graph by auto
  then have "\<not> edge_in_cycle g e"
    by (rule unflagged_edge)
  with edge_in_cycle_mark_cycles [OF assms(2), of sc] show ?thesis
    by simp
qed

subsection \<open>Cycles\<close>

lemma structure_cycle_of_graph: "structure_cycle (structure_of g) c = elementary_cycle g c"
  by (simp add: structure_cycle_def elementary_cycle_def structure_of_def nx_has_edge_def)

lemma same_cycle_length: "same_cycle c c' \<Longrightarrow> length c' = length c"
  by (auto simp: same_cycle_def)

lemma length_filter_sort_key:
  "length (filter P (sort_key f xs)) = length (filter P xs)"
  by (simp add: filter_sort)

lemma filter_same_cycle_longer:
  "filter (same_cycle c) (filter (\<lambda>x. 1 < length x) cs) =
     (if 1 < length c then filter (same_cycle c) cs else [])"
proof -
  have "\<And>x. (1 < length x \<and> same_cycle c x) = (1 < length c \<and> same_cycle c x)"
    using same_cycle_length by auto
  then show ?thesis
    by (simp add: filter_empty_conv cong: filter_cong)
qed

lemma set_arrangements:
  "set (arrangements k ns) = {p. length p = k \<and> distinct p \<and> set p \<subseteq> set ns}"
proof (induction k)
  case 0
  then show ?case by auto
next
  case (Suc k)
  show ?case
  proof (intro set_eqI iffI)
    fix p assume "p \<in> set (arrangements (Suc k) ns)"
    then show "p \<in> {p. length p = Suc k \<and> distinct p \<and> set p \<subseteq> set ns}"
      using Suc.IH by auto
  next
    fix p assume "p \<in> {p. length p = Suc k \<and> distinct p \<and> set p \<subseteq> set ns}"
    then obtain x q where "p = x # q" "length q = k" "distinct q" "x \<notin> set q"
        "x \<in> set ns" "set q \<subseteq> set ns"
      by (cases p) auto
    then show "p \<in> set (arrangements (Suc k) ns)"
      using Suc.IH by auto
  qed
qed

lemma distinct_concat_map:
  assumes "distinct xs" and "\<And>x. x \<in> set xs \<Longrightarrow> distinct (f x)"
    and "\<And>x y. x \<in> set xs \<Longrightarrow> y \<in> set xs \<Longrightarrow> x \<noteq> y \<Longrightarrow> set (f x) \<inter> set (f y) = {}"
  shows "distinct (concat (map f xs))"
  using assms
proof (induction xs)
  case Nil
  then show ?case by simp
next
  case (Cons a xs)
  have "distinct (concat (map f xs))"
    using Cons by auto
  moreover have "distinct (f a)"
    using Cons.prems(2) by simp
  moreover have "set (f a) \<inter> set (concat (map f xs)) = {}"
    using Cons.prems(1) Cons.prems(3) [of a] by fastforce
  ultimately show ?case
    by simp
qed

lemma distinct_arrangements: "distinct ns \<Longrightarrow> distinct (arrangements k ns)"
proof (induction k)
  case 0
  then show ?case by simp
next
  case (Suc k)
  then have "distinct (arrangements k ns)"
    by simp
  then have "\<And>x. distinct (map ((#) x) (filter (\<lambda>p. x \<notin> set p) (arrangements k ns)))"
    by (simp add: distinct_map)
  then show ?case
    unfolding arrangements.simps
    by (intro distinct_concat_map Suc.prems) auto
qed

lemma distinct_candidates:
  "distinct ns \<Longrightarrow> distinct (concat (map (\<lambda>k. arrangements k ns) [i..<j]))"
  by (intro distinct_concat_map) (auto simp: distinct_arrangements set_arrangements)

lemma set_candidates:
  "set (concat (map (\<lambda>k. arrangements k ns) [1..<Suc n])) =
     {p. p \<noteq> [] \<and> length p \<le> n \<and> distinct p \<and> set p \<subseteq> set ns}"
proof -
  have "\<And>p :: 'a list. p \<noteq> [] \<Longrightarrow> length p \<le> n \<Longrightarrow> 0 < n"
    by (cases n) auto
  then show ?thesis
    by (auto simp: set_arrangements Suc_le_eq less_Suc_eq_le)
qed

lemma is_cycle_iff: "is_cycle (snd s) c = structure_cycle s c"
  by (auto simp: is_cycle_def structure_cycle_def cycle_edges_def list_all_iff)

lemma structure_cycle_rotate:
  assumes "structure_cycle s c"
  shows "structure_cycle s (rotate k c)"
proof -
  from assms have c: "c \<noteq> []" "distinct c"
      "\<And>i. i < length c \<Longrightarrow> (c ! i, c ! ((i + 1) mod length c)) \<in> set (snd s)"
    by (auto simp: structure_cycle_def)
  have "(rotate k c ! i, rotate k c ! ((i + 1) mod length (rotate k c))) \<in> set (snd s)"
    if "i < length c" for i
  proof -
    let ?n = "length c"
    from that have n: "0 < ?n" by auto
    have "rotate k c ! i = c ! ((k + i) mod ?n)"
      using that by (simp add: nth_rotate)
    moreover have "rotate k c ! ((i + 1) mod ?n) = c ! ((k + (i + 1) mod ?n) mod ?n)"
      using n by (simp add: nth_rotate)
    moreover have "(k + (i + 1) mod ?n) mod ?n = ((k + i) mod ?n + 1) mod ?n"
      by (simp add: mod_simps ac_simps)
    moreover have "(k + i) mod ?n < ?n"
      using n by simp
    ultimately show ?thesis
      using c(3) [of "(k + i) mod ?n"] by simp
  qed
  with c(1,2) show ?thesis
    by (simp add: structure_cycle_def)
qed

lemma structure_cycle_nodes:
  assumes "structure_cycle s c"
  shows "set c \<subseteq> set (map fst (snd s))"
proof
  fix x assume "x \<in> set c"
  then obtain i where "i < length c" "c ! i = x"
    by (auto simp: in_set_conv_nth)
  with assms have "(x, c ! ((i + 1) mod length c)) \<in> set (snd s)"
    by (auto simp: structure_cycle_def)
  then show "x \<in> set (map fst (snd s))"
    by force
qed

lemma starts_at_first_rotation:
  assumes "c \<noteq> []" and "set c \<subseteq> set ns"
  shows "\<exists>k. starts_at_first ns (rotate k c)"
proof -
  from assms have "\<exists>x \<in> set ns. x \<in> set c"
    by (cases c) auto
  then obtain m where m: "find (\<lambda>x. x \<in> set c) ns = Some m"
    by (cases "find (\<lambda>x. x \<in> set c) ns") (auto simp: find_None_iff)
  then have "m \<in> set c"
    by (auto simp: find_Some_iff)
  then obtain j where j: "j < length c" "c ! j = m"
    by (auto simp: in_set_conv_nth)
  with assms(1) have "hd (rotate j c) = m"
    by (simp add: hd_rotate_conv_nth)
  with m have "starts_at_first ns (rotate j c)"
    by (simp add: starts_at_first_def)
  then show ?thesis ..
qed

lemma starts_at_first_unique:
  assumes "distinct c" and "c \<noteq> []"
    and "starts_at_first ns (rotate i c)" and "starts_at_first ns (rotate j c)"
  shows "rotate i c = rotate j c"
proof -
  let ?n = "length c"
  from assms(3,4) have "hd (rotate i c) = hd (rotate j c)"
    by (simp add: starts_at_first_def)
  with assms(2) have "c ! (i mod ?n) = c ! (j mod ?n)"
    by (simp add: hd_rotate_conv_nth)
  with assms(1,2) have "i mod ?n = j mod ?n"
    by (simp add: nth_eq_iff_index_eq)
  then show ?thesis
    by (metis rotate_conv_mod)
qed

lemma length_filter_unique:
  assumes "distinct xs" and "a \<in> set xs" and "\<And>x. x \<in> set xs \<Longrightarrow> P x \<longleftrightarrow> x = a"
  shows "length (filter P xs) = 1"
  using assms
proof (induction xs)
  case Nil
  then show ?case by simp
next
  case (Cons x xs)
  show ?case
  proof (cases "x = a")
    case True
    with Cons.prems have "\<And>y. y \<in> set xs \<Longrightarrow> \<not> P y"
      by auto
    then have "filter P xs = []"
      by (simp add: filter_empty_conv)
    with True Cons.prems(3) [of x] show ?thesis by simp
  next
    case False
    with Cons have "length (filter P xs) = 1"
      by auto
    with False Cons.prems(3) [of x] show ?thesis by simp
  qed
qed

lemma yields_each_cycle_once_rev:
  "yields_each_cycle_once s (rev cs) = yields_each_cycle_once s cs"
  by (simp add: yields_each_cycle_once_def rev_filter [symmetric])

lemma reference_cycles_contract: "yields_each_cycle_once s (reference_cycles s)"
proof -
  define ns where "ns = rev (remdups (rev (fst s @ map fst (snd s) @ map snd (snd s))))"
  define cand where "cand = concat (map (\<lambda>k. arrangements k ns) [1..<Suc (length ns)])"
  have r: "reference_cycles s = filter (\<lambda>c. structure_cycle s c \<and> starts_at_first ns c) cand"
    by (simp add: reference_cycles_def ns_def cand_def is_cycle_iff Let_def)
  have d: "distinct (reference_cycles s)"
    unfolding r cand_def by (intro distinct_filter distinct_candidates) (simp add: ns_def)
  have once: "length (filter (same_cycle c) (reference_cycles s)) = 1"
    if c: "structure_cycle s c" for c
  proof -
    from c have c': "c \<noteq> []" "distinct c"
      by (auto simp: structure_cycle_def)
    from structure_cycle_nodes [OF c] have sub: "set c \<subseteq> set ns"
      by (auto simp: ns_def)
    from starts_at_first_rotation [OF c'(1) sub]
    obtain k where k: "starts_at_first ns (rotate k c)" ..
    have "length (rotate k c) \<le> length ns"
    proof -
      have "card (set c) \<le> card (set ns)"
        using sub by (intro card_mono) auto
      with c'(2) show ?thesis
        by (simp add: distinct_card ns_def length_remdups_card_conv)
    qed
    with c' sub have "rotate k c \<in> set cand"
      unfolding cand_def set_candidates by simp
    with k c have mem: "rotate k c \<in> set (reference_cycles s)"
      by (simp add: r structure_cycle_rotate)
    have "same_cycle c x \<longleftrightarrow> x = rotate k c" if "x \<in> set (reference_cycles s)" for x
    proof
      assume "same_cycle c x"
      then obtain j where "x = rotate j c"
        by (auto simp: same_cycle_def)
      moreover from that have "starts_at_first ns x"
        by (simp add: r)
      ultimately show "x = rotate k c"
        using starts_at_first_unique [OF c'(2) c'(1), of ns j k] k by simp
    next
      assume "x = rotate k c"
      then show "same_cycle c x"
        by (auto simp: same_cycle_def)
    qed
    with d mem show ?thesis
      by (intro length_filter_unique [of _ "rotate k c"]) auto
  qed
  have "\<forall>c \<in> set (reference_cycles s). structure_cycle s c"
    by (simp add: r)
  with once show ?thesis
    by (simp add: yields_each_cycle_once_def)
qed

section \<open>The claims\<close>

text \<open>
  C1, as the code has it: in the cycle scenario the parser records \<open>fa\<close> with the one
  call target \<open>b.fb\<close> and \<open>fb\<close> with \<open>a.fa\<close>; the entity graph has the two nodes
  \<open>a.py::fa\<close> and \<open>b.py::fb\<close> and no edge, since a call qualified by a module name is
  no key of the name index.
\<close>

theorem cycle_scenario_entity_graph:
  "map definitions cycle_files =
     [[\<lparr>name = ''fa'', entity_type = FUNCTION, line_start = 2, line_end = 2, parent = None,
        calls = [''b.fb''], nesting_depth = 0, docstring = None, parameters = []\<rparr>],
      [\<lparr>name = ''fb'', entity_type = FUNCTION, line_start = 2, line_end = 2, parent = None,
        calls = [''a.fa''], nesting_depth = 0, docstring = None, parameters = []\<rparr>]] \<and>
   map fst (nodes (objects (snd entity_build) (fst entity_build))) = [''a.py::fa'', ''b.py::fb''] \<and>
   edges (objects (snd entity_build) (fst entity_build)) = []"
  by code_simp

text \<open>
  C1 as stated fails: neither graph of the cycle scenario has an edge of the 2-cycle.
  The parser drops \<open>from . import b\<close>, which has no module name, so the file graph has
  no edge at all.
\<close>

theorem cycle_scenario_has_no_two_cycle:
  "\<not> nx_has_edge (objects (snd first_build) (fst first_build)) ''a.py'' ''b.py'' \<and>
   \<not> nx_has_edge (objects (snd first_build) (fst first_build)) ''b.py'' ''a.py'' \<and>
   \<not> nx_has_edge (objects (snd entity_build) (fst entity_build)) ''a.py::fa'' ''b.py::fb'' \<and>
   \<not> nx_has_edge (objects (snd entity_build) (fst entity_build)) ''b.py::fb'' ''a.py::fa''"
  by code_simp

text \<open>
  C2 fails for the file graph: \<open>build_file_graph\<close> adds an edge from a file to itself
  when an import of the file resolves to the file, by a direct match in the module
  index (\<open>foo.py\<close> importing \<open>foo\<close>) or by the substring fallback
  (\<open>tools/os_helper.py\<close> importing \<open>os\<close>). The entity graph never has such an
  edge (\<open>entity_graph_has_no_self_edge\<close>).
\<close>

theorem file_graph_self_edges:
  "map pf_imports self_import_files =
     [[\<lparr>module = ''foo'', names = [''foo''], import_line = 1, is_star_import = False,
        import_alias = None\<rparr>],
      [\<lparr>module = ''os'', names = [''os''], import_line = 1, is_star_import = False,
        import_alias = None\<rparr>]] \<and>
   map fst (edges (objects (snd second_build) (fst second_build))) =
     [(''foo.py'', ''foo.py''), (''tools/os_helper.py'', ''tools/os_helper.py'')]"
  by code_simp




text \<open>
  C4 fails for the edges. \<open>mark_cycles\<close> assigns the flag of every node, but of the
  edges it only sets the flag of those on a returned cycle to true and assigns nothing
  to the others: an edge that an earlier marking flagged and that lies on no cycle any
  more keeps its true flag, while the loop over the nodes resets the flag of the node at
  its end. \<open>stale_graph\<close> is a marked graph that lost the edge closing the cycle of
  \<open>b.py\<close> and \<open>c.py\<close>; it is marked again.
\<close>

theorem stale_edge_flag_survives:
  "find_circular_dependencies demo_cycles two_cycle_graph =
     [[''a.py'', ''b.py''], [''b.py'', ''c.py'']] \<and>
   stale_graph =
     \<lparr>nodes = [(''a.py'', [(''in_cycle'', ABool True)]), (''b.py'', [(''in_cycle'', ABool True)]),
               (''c.py'', [(''in_cycle'', ABool True)])],
      edges = [((''a.py'', ''b.py''), [(''import_type'', AStr ''direct''), (''in_cycle'', ABool True)]),
               ((''b.py'', ''a.py''), [(''import_type'', AStr ''direct''), (''in_cycle'', ABool True)]),
               ((''b.py'', ''c.py''), [(''import_type'', AStr ''direct''), (''in_cycle'', ABool True)])]\<rparr> \<and>
   find_circular_dependencies demo_cycles stale_graph = [[''a.py'', ''b.py'']] \<and>
   cycle_edges [''a.py'', ''b.py''] = [(''a.py'', ''b.py''), (''b.py'', ''a.py'')] \<and>
   nx_has_edge stale_graph ''b.py'' ''c.py'' \<and>
   edge_in_cycle (mark_cycles demo_cycles stale_graph) (''b.py'', ''c.py'') \<and>
   nx_has_node stale_graph ''c.py'' \<and>
   \<not> node_in_cycle (mark_cycles demo_cycles stale_graph) ''c.py''"
  by code_simp

text \<open>
  C5: a \<open>ParsedFile\<close> returned by the JS/TS \<open>parse_file\<close> holds either the three
  results of the primary parse, or the imports and comments of the regex fallback and
  no definitions; the fallback is used only when the primary parse raised.
\<close>

theorem js_results_never_mixed:
  assumes "JavaScriptParser_parse_file lib fs path = Inr p"
  shows "\<exists>content. read_file fs path = Inr content \<and>
     ((\<exists>tree. parseModule lib content = Inr tree \<and>
              js_extract_imports lib tree = Inr (pf_imports p) \<and>
              js_extract_definitions lib tree content = Inr (definitions p) \<and>
              js_extract_comments lib tree content = Inr (comments p))
      \<or> ((\<exists>e q. primary_parse lib content
                   \<lparr>file_path = file_path p, language = language p, pf_imports = [],
                    definitions = [], comments = [], lines_of_code = lines_of_code p,
                    raw_content = raw_content p\<rparr> = Inl (e, q)) \<and>
          pf_imports p = extract_imports_regex lib content \<and>
          definitions p = [] \<and>
          comments p = extract_comments_regex lib content))"
  using assms
  unfolding JavaScriptParser_parse_file_def primary_parse_def Let_def
    js_extract_imports_def js_extract_definitions_def js_extract_comments_def
  by (auto split: sum.splits prod.splits js_tree.splits)

theorem js_results_never_mixed_witness:
  "JavaScriptParser_parse_file demo_js demo_fs ''/proj/demo.js'' =
     Inr \<lparr>file_path = ''/proj/demo.js'', language = ''javascript'', pf_imports = [],
          definitions = [],
          comments = [\<lparr>comment_text = ''old'', comment_line = 2, is_docstring = False,
                       parent_entity = None\<rparr>],
          lines_of_code = 1, raw_content = js_content\<rparr> \<and>
   js_extract_comments demo_js (JsObject ()) js_content = Inl TypeError \<and>
   extract_comments_regex demo_js js_content =
     [\<lparr>comment_text = ''old'', comment_line = 2, is_docstring = False,
       parent_entity = None\<rparr>]"
proof -
  let ?p = "\<lparr>file_path = ''/proj/demo.js'', language = ''javascript'', pf_imports = [],
          definitions = [],
          comments = [\<lparr>comment_text = ''old'', comment_line = 2, is_docstring = False,
                       parent_entity = None\<rparr>],
          lines_of_code = 1, raw_content = js_content\<rparr>"
  have r: "read_file demo_fs ''/proj/demo.js'' = Inr js_content"
    by (simp add: read_file_def demo_fs_def)
  have p: "JavaScriptParser_parse_file demo_js demo_fs ''/proj/demo.js'' = Inr ?p"
    by code_simp
  have c: "js_extract_comments demo_js (JsObject ()) js_content = Inl TypeError"
    by (simp add: js_extract_comments_def demo_js_def)
  from js_results_never_mixed [OF p] r
  have "js_extract_comments demo_js (JsObject ()) js_content = Inr (comments ?p) \<or>
        comments ?p = extract_comments_regex demo_js js_content"
    by (auto simp: demo_js_def)
  with c have "extract_comments_regex demo_js js_content = comments ?p"
    by simp
  with p c show ?thesis
    by simp
qed

text \<open>
  C6, as the code has it: a build clears the builder's own graph object and fills it,
  so the returned graph depends on the root directory and the parsed files only: its
  nodes are the files (the definitions) of this call. The graph returned is always
  that one object of the builder; no object is created and no other object is changed.
\<close>

theorem build_reuses_the_graph_object:
  "fst (build_file_graph self files h) = file_graph self \<and>
   fst (build_entity_graph self files h) = entity_graph self \<and>
   next_free (snd (build_file_graph self files h)) = next_free h \<and>
   next_free (snd (build_entity_graph self files h)) = next_free h \<and>
   node_ids (objects (snd (build_file_graph self files h)) (file_graph self)) =
     (\<lambda>pf. get_relative_path (root_dir self) (file_path pf)) ` set files \<and>
   node_ids (objects (snd (build_entity_graph self files h)) (entity_graph self)) =
     (\<Union>pf \<in> set files.
        entity_id (get_relative_path (root_dir self) (file_path pf)) ` set (definitions pf)) \<and>
   objects (snd (build_file_graph self files h)) (file_graph self) =
     objects (snd (build_file_graph self files h')) (file_graph self) \<and>
   objects (snd (build_entity_graph self files h)) (entity_graph self) =
     objects (snd (build_entity_graph self files h')) (entity_graph self) \<and>
   (\<forall>r. r \<noteq> file_graph self \<longrightarrow>
        objects (snd (build_file_graph self files h)) r = objects h r) \<and>
   (\<forall>r. r \<noteq> entity_graph self \<longrightarrow>
        objects (snd (build_entity_graph self files h)) r = objects h r)"
proof -
  have "fill_file_graph (root_dir self) files (objects h (file_graph self)) =
        fill_file_graph (root_dir self) files (objects h' (file_graph self))"
    by (simp add: fill_file_graph_def nx_clear_def)
  moreover
  have "fill_entity_graph (root_dir self) files (objects h (entity_graph self)) =
        fill_entity_graph (root_dir self) files (objects h' (entity_graph self))"
    by (simp add: fill_entity_graph_def nx_clear_def)
  ultimately show ?thesis
    by (simp add: build_file_graph_def build_entity_graph_def node_ids_fill_file_graph
        node_ids_fill_entity_graph)
qed

theorem build_reuses_the_graph_object_witness:
  "file_graph proj_builder = 0 \<and> entity_graph proj_builder = 1 \<and>
   fst first_build = 0 \<and> fst second_build = 0 \<and> fst entity_build = 1 \<and>
   objects (snd second_build) 0 =
     objects (snd (build_file_graph proj_builder self_import_files proj_heap)) 0 \<and>
   objects (snd entity_build) 0 = objects (snd first_build) 0 \<and>
   objects (snd second_build) 1 = objects (snd first_build) 1 \<and>
   map fst (nodes (objects (snd entity_build) 0)) = [''a.py'', ''b.py'']"
proof -
  have b: "file_graph proj_builder = 0" "entity_graph proj_builder = 1"
    by (simp_all add: proj_builder_def GraphBuilder_init_def new_DiGraph_def empty_heap_def)
  note t1 = build_reuses_the_graph_object [of proj_builder cycle_files proj_heap proj_heap]
  note t2 = build_reuses_the_graph_object
    [of proj_builder self_import_files "snd first_build" proj_heap]
  note t3 = build_reuses_the_graph_object
    [of proj_builder cycle_files "snd first_build" proj_heap]
  have n: "map fst (nodes (objects (snd first_build) 0)) = [''a.py'', ''b.py'']"
    by code_simp
  from t1 b have "fst first_build = 0"
    by (simp add: first_build_def)
  moreover from t2 b have "fst second_build = 0"
    by (simp add: second_build_def)
  moreover from t3 b have "fst entity_build = 1"
    by (simp add: entity_build_def)
  moreover from t2 b have "objects (snd second_build) 0 =
     objects (snd (build_file_graph proj_builder self_import_files proj_heap)) 0"
    by (simp add: second_build_def)
  moreover from t3 b have e: "objects (snd entity_build) 0 = objects (snd first_build) 0"
    by (simp add: entity_build_def)
  moreover from t2 b have "objects (snd second_build) 1 = objects (snd first_build) 1"
    by (simp add: second_build_def)
  ultimately show ?thesis
    using b n by simp
qed

text \<open>
  C6 as stated fails: the second build returns the object the first build returned,
  and that object now holds the second graph.
\<close>

theorem later_build_changes_earlier_graph:
  "fst second_build = fst first_build \<and>
   map fst (nodes (objects (snd first_build) (fst first_build))) = [''a.py'', ''b.py''] \<and>
   map fst (nodes (objects (snd second_build) (fst first_build))) =
     [''foo.py'', ''tools/os_helper.py'']"
  by code_simp

text \<open>
  C7: a node is returned by \<open>find_stranded_nodes\<close> iff it is a node of the graph, its
  in-degree is 0 (no edge of the graph ends in it) and no configured entry-point
  fragment is a substring of its id.
\<close>

theorem stranded_iff_no_incoming_and_no_fragment:
  "(n \<in> set (find_stranded_nodes g entry_points) \<longleftrightarrow>
      nx_has_node g n \<and> nx_in_degree g n = 0 \<and>
      \<not> (\<exists>l ep. entry_points = Some l \<and> ep \<in> set l \<and> (\<exists>pre suf. n = pre @ ep @ suf))) \<and>
   (nx_in_degree g n = 0 \<longleftrightarrow> (\<forall>u. \<not> nx_has_edge g u n))"
proof -
  have "list_ex (\<lambda>ep. py_in ep n) (case entry_points of None \<Rightarrow> [] | Some l \<Rightarrow> l) \<longleftrightarrow>
        (\<exists>l ep. entry_points = Some l \<and> ep \<in> set l \<and> (\<exists>pre suf. n = pre @ ep @ suf))"
    by (cases entry_points) (auto simp: list_ex_iff py_in_def sublist_def)
  then show ?thesis
    unfolding find_stranded_nodes_def Let_def nx_has_node_def
    using in_degree_zero_iff [of g n] by auto
qed

theorem stranded_iff_no_incoming_and_no_fragment_witness:
  "find_stranded_nodes entry_graph (Some [''main.py'']) = [''orphan.py''] \<and>
   nx_has_node entry_graph ''orphan.py'' \<and>
   (\<forall>u. \<not> nx_has_edge entry_graph u ''orphan.py'') \<and>
   (\<forall>u. \<not> nx_has_edge entry_graph u ''main.py'') \<and>
   (\<exists>ep \<in> set [''main.py'']. \<exists>pre suf. ''main.py'' = pre @ ep @ suf)"
proof -
  let ?eps = "Some [''main.py'']"
  have v: "find_stranded_nodes entry_graph ?eps = [''orphan.py'']"
    by code_simp
  have d: "nx_in_degree entry_graph ''main.py'' = 0"
    by code_simp
  have n: "nx_has_node entry_graph ''main.py''"
    by code_simp
  note o = stranded_iff_no_incoming_and_no_fragment [of "''orphan.py''" entry_graph ?eps]
  note m = stranded_iff_no_incoming_and_no_fragment [of "''main.py''" entry_graph ?eps]
  from o v have "nx_has_node entry_graph ''orphan.py'' \<and>
      (\<forall>u. \<not> nx_has_edge entry_graph u ''orphan.py'')"
    by auto
  moreover from m d have "\<forall>u. \<not> nx_has_edge entry_graph u ''main.py''"
    by blast
  moreover from m v d n
  have "\<exists>ep \<in> set [''main.py'']. \<exists>pre suf. ''main.py'' = pre @ ep @ suf"
    by auto
  ultimately show ?thesis
    using v by blast
qed

text \<open>
  C8: \<open>find_circular_dependencies\<close> hands the nodes and edges of the graph to
  \<open>nx.simple_cycles\<close>. When the library yields every elementary cycle of what it is
  given once, the result holds elementary cycles of the graph of length above 1 only,
  every such cycle once, no self-loop, and the shorter cycles first. When the library
  raises, the result is empty.
\<close>

theorem find_circular_dependencies_lists_cycles:
  "(\<forall>cs. simple_cycles (structure_of g) = Some cs \<and> yields_each_cycle_once (structure_of g) cs \<longrightarrow>
       (\<forall>c \<in> set (find_circular_dependencies simple_cycles g).
          elementary_cycle g c \<and> 1 < length c) \<and>
       (\<forall>c. elementary_cycle g c \<and> 1 < length c \<longrightarrow>
          length (filter (same_cycle c) (find_circular_dependencies simple_cycles g)) = 1) \<and>
       (\<forall>c. elementary_cycle g c \<and> length c = 1 \<longrightarrow>
          filter (same_cycle c) (find_circular_dependencies simple_cycles g) = []) \<and>
       sorted (map length (find_circular_dependencies simple_cycles g))) \<and>
   (simple_cycles (structure_of g) = None \<longrightarrow> find_circular_dependencies simple_cycles g = [])"
proof -
  let ?r = "find_circular_dependencies simple_cycles g"
  have some: "(\<forall>c \<in> set ?r. elementary_cycle g c \<and> 1 < length c) \<and>
       (\<forall>c. elementary_cycle g c \<and> 1 < length c \<longrightarrow> length (filter (same_cycle c) ?r) = 1) \<and>
       (\<forall>c. elementary_cycle g c \<and> length c = 1 \<longrightarrow> filter (same_cycle c) ?r = []) \<and>
       sorted (map length ?r)"
    if a: "simple_cycles (structure_of g) = Some cs \<and>
           yields_each_cycle_once (structure_of g) cs" for cs
  proof -
    have r: "?r = sort_key length (filter (\<lambda>c. 1 < length c) cs)"
      using a by (simp add: find_circular_dependencies_def)
    have n: "\<And>c. length (filter (same_cycle c) ?r) =
               length (if 1 < length c then filter (same_cycle c) cs else [])"
      unfolding r by (simp only: length_filter_sort_key filter_same_cycle_longer)
    from a have y: "\<forall>c \<in> set cs. elementary_cycle g c"
        "\<forall>c. elementary_cycle g c \<longrightarrow> length (filter (same_cycle c) cs) = 1"
      by (simp_all add: yields_each_cycle_once_def structure_cycle_of_graph)
    have "\<forall>c \<in> set ?r. elementary_cycle g c \<and> 1 < length c"
      using y(1) by (simp add: r)
    moreover
    have "\<forall>c. elementary_cycle g c \<and> 1 < length c \<longrightarrow> length (filter (same_cycle c) ?r) = 1"
      using y(2) by (simp add: n)
    moreover
    have "\<forall>c. elementary_cycle g c \<and> length c = 1 \<longrightarrow> filter (same_cycle c) ?r = []"
    proof (intro allI impI)
      fix c assume "elementary_cycle g c \<and> length c = 1"
      then have "length (filter (same_cycle c) ?r) = 0"
        by (simp add: n)
      then show "filter (same_cycle c) ?r = []"
        by simp
    qed
    moreover have "sorted (map length ?r)"
      by (simp add: r)
    ultimately show ?thesis
      by blast
  qed
  have none: "?r = []" if "simple_cycles (structure_of g) = None"
    using that by (simp add: find_circular_dependencies_def)
  from some none show ?thesis
    by blast
qed

theorem find_circular_dependencies_lists_cycles_witness:
  "late_cycles (structure_of loop_graph) =
     Some [[''a.py'', ''b.py'', ''c.py''], [''a.py'', ''b.py''], [''a.py'']] \<and>
   yields_each_cycle_once (structure_of loop_graph)
     [[''a.py'', ''b.py'', ''c.py''], [''a.py'', ''b.py''], [''a.py'']] \<and>
   elementary_cycle loop_graph [''a.py''] \<and>
   elementary_cycle loop_graph [''b.py'', ''a.py''] \<and>
   elementary_cycle loop_graph [''c.py'', ''a.py'', ''b.py''] \<and>
   find_circular_dependencies late_cycles loop_graph =
     [[''a.py'', ''b.py''], [''a.py'', ''b.py'', ''c.py'']] \<and>
   length (filter (same_cycle [''b.py'', ''a.py''])
             (find_circular_dependencies late_cycles loop_graph)) = 1 \<and>
   length (filter (same_cycle [''c.py'', ''a.py'', ''b.py''])
             (find_circular_dependencies late_cycles loop_graph)) = 1 \<and>
   filter (same_cycle [''a.py'']) (find_circular_dependencies late_cycles loop_graph) = [] \<and>
   sorted (map length (find_circular_dependencies late_cycles loop_graph)) \<and>
   no_cycles (structure_of loop_graph) = None \<and>
   find_circular_dependencies no_cycles loop_graph = []"
proof -
  let ?cs = "[[''a.py'', ''b.py'', ''c.py''], [''a.py'', ''b.py''], [''a.py'']]"
  have v: "rev (reference_cycles (structure_of loop_graph)) = ?cs"
    by code_simp
  then have s: "late_cycles (structure_of loop_graph) = Some ?cs"
    by (simp add: late_cycles_def)
  have "yields_each_cycle_once (structure_of loop_graph)
          (rev (reference_cycles (structure_of loop_graph)))"
    using reference_cycles_contract [of "structure_of loop_graph"]
    by (simp add: yields_each_cycle_once_rev)
  with v have l: "yields_each_cycle_once (structure_of loop_graph) ?cs"
    by simp
  have e1: "elementary_cycle loop_graph [''a.py'']"
    by (simp add: elementary_cycle_def nx_has_edge_def loop_graph_def)
  have e2: "elementary_cycle loop_graph [''b.py'', ''a.py'']"
    by (simp add: elementary_cycle_def nx_has_edge_def loop_graph_def less_Suc_eq)
  have e3: "elementary_cycle loop_graph [''c.py'', ''a.py'', ''b.py'']"
    by (simp add: elementary_cycle_def nx_has_edge_def loop_graph_def less_Suc_eq)
  have r: "find_circular_dependencies late_cycles loop_graph =
      [[''a.py'', ''b.py''], [''a.py'', ''b.py'', ''c.py'']]"
    using s by (simp add: find_circular_dependencies_def)
  have z: "no_cycles (structure_of loop_graph) = None"
    by (simp add: no_cycles_def)
  note t = find_circular_dependencies_lists_cycles [of late_cycles loop_graph]
  note t' = find_circular_dependencies_lists_cycles [of no_cycles loop_graph]
  from t s l e2 have "length (filter (same_cycle [''b.py'', ''a.py''])
             (find_circular_dependencies late_cycles loop_graph)) = 1"
    by simp
  moreover from t s l e3 have "length (filter (same_cycle [''c.py'', ''a.py'', ''b.py''])
             (find_circular_dependencies late_cycles loop_graph)) = 1"
    by simp
  moreover from t s l e1
  have "filter (same_cycle [''a.py'']) (find_circular_dependencies late_cycles loop_graph) = []"
    by simp
  moreover from t s l
  have "sorted (map length (find_circular_dependencies late_cycles loop_graph))"
    by simp
  moreover from t' z have "find_circular_dependencies no_cycles loop_graph = []"
    by simp
  ultimately show ?thesis
    using s l e1 e2 e3 r z by simp
qed

text \<open>
  C9: when the file can be read and \<open>ast.parse\<close> raises a syntax error, the Python
  \<open>parse_file\<close> raises nothing and returns the file's text and line count with empty
  imports, definitions and comments.
\<close>

theorem syntax_error_keeps_text_and_line_count:
  assumes "read_file fs path = Inr content" and "ast_parse content = Inl SyntaxError"
  shows "PythonParser_parse_file limit ast_parse fs path =
           Inr \<lparr>file_path = path, language = ''python'', pf_imports = [], definitions = [],
                comments = [], lines_of_code = count_lines content, raw_content = content\<rparr>"
  using assms by (simp add: PythonParser_parse_file_def except_SyntaxError_def)

theorem syntax_error_keeps_text_and_line_count_witness:
  "read_file demo_fs ''/proj/broken.py'' = Inr broken_content \<and>
   demo_ast_parse broken_content = Inl SyntaxError \<and>
   PythonParser_parse_file interpreter_limit demo_ast_parse demo_fs ''/proj/broken.py'' =
     Inr \<lparr>file_path = ''/proj/broken.py'', language = ''python'', pf_imports = [],
          definitions = [], comments = [], lines_of_code = 1,
          raw_content = broken_content\<rparr>"
proof -
  have r: "read_file demo_fs ''/proj/broken.py'' = Inr broken_content"
    by (simp add: read_file_def demo_fs_def)
  have s: "demo_ast_parse broken_content = Inl SyntaxError"
    by code_simp
  have n: "count_lines broken_content = 1"
    by code_simp
  show ?thesis
    using syntax_error_keeps_text_and_line_count
      [where ast_parse = demo_ast_parse and limit = interpreter_limit, OF r s]
      r s n
    by simp
qed

text \<open>
  C10: the \<open>lines_of_code\<close> of a returned \<open>ParsedFile\<close> is the number of lines of the
  file's text that count as code, not the number of its lines; it is 0 when no line
  counts as code.
\<close>

theorem lines_of_code_counts_code_lines:
  assumes "PythonParser_parse_file limit ast_parse fs path = Inr p \<or>
           JavaScriptParser_parse_file lib fs path = Inr p"
  shows "read_file fs path = Inr (raw_content p) \<and>
         lines_of_code p =
           int (card {i. i < length (py_split (CHR 0x0A) (raw_content p)) \<and>
                         counted_line (py_split (CHR 0x0A) (raw_content p) ! i)}) \<and>
         ((\<forall>l\<in>set (py_split (CHR 0x0A) (raw_content p)). \<not> counted_line l) \<longrightarrow>
            lines_of_code p = 0)"
proof -
  from assms obtain content where c: "read_file fs path = Inr content"
      "raw_content p = content" "lines_of_code p = count_lines content"
    using py_parse_file_loc js_parse_file_loc by blast
  show ?thesis
    using c count_lines_card [of content] count_lines_zero [of content] by simp
qed

theorem lines_of_code_counts_code_lines_witness:
  "PythonParser_parse_file interpreter_limit demo_ast_parse demo_fs ''/proj/demo.py'' =
     Inr \<lparr>file_path = ''/proj/demo.py'', language = ''python'', pf_imports = [],
          definitions = [],
          comments = [\<lparr>comment_text = ''note'', comment_line = 2, is_docstring = False,
                       parent_entity = None\<rparr>],
          lines_of_code = 1, raw_content = demo_content\<rparr> \<and>
   length (py_split (CHR 0x0A) demo_content) = 4 \<and>
   card {i. i < length (py_split (CHR 0x0A) demo_content) \<and>
            counted_line (py_split (CHR 0x0A) demo_content ! i)} = 1"
proof -
  let ?p = "\<lparr>file_path = ''/proj/demo.py'', language = ''python'', pf_imports = [],
          definitions = [],
          comments = [\<lparr>comment_text = ''note'', comment_line = 2, is_docstring = False,
                       parent_entity = None\<rparr>],
          lines_of_code = 1, raw_content = demo_content\<rparr>"
  have p: "PythonParser_parse_file interpreter_limit demo_ast_parse demo_fs ''/proj/demo.py'' =
      Inr ?p"
    by code_simp
  have l: "length (py_split (CHR 0x0A) demo_content) = 4"
    by code_simp
  from lines_of_code_counts_code_lines
    [of interpreter_limit demo_ast_parse demo_fs "''/proj/demo.py''" ?p demo_js] p
  have "card {i. i < length (py_split (CHR 0x0A) demo_content) \<and>
            counted_line (py_split (CHR 0x0A) demo_content ! i)} = 1"
    by simp
  with p l show ?thesis
    by simp
qed

end
